theory Spec2Isabelle
  imports Main "HOL-Library.AList"
begin

section \<open>Strings\<close>

text \<open>
  A JavaScript string is modelled as a \<^typ>\<open>string\<close> of ASCII characters. The
  white space of \<^verbatim>\<open>trim\<close> and of the regular expression class \<^verbatim>\<open>\s\<close> is, on
  ASCII, tab, line feed, vertical tab, form feed, carriage return and space.
\<close>

definition is_space :: "char \<Rightarrow> bool" where
  "is_space c \<longleftrightarrow> c \<in> {CHR 0x09, CHR 0x0A, CHR 0x0B, CHR 0x0C, CHR 0x0D, CHR 0x20}"

definition trimStart :: "string \<Rightarrow> string" where
  "trimStart s = dropWhile is_space s"

definition trim :: "string \<Rightarrow> string" where
  "trim s = rev (dropWhile is_space (rev (dropWhile is_space s)))"

definition startsWith :: "string \<Rightarrow> string \<Rightarrow> bool" where
  "startsWith s p \<longleftrightarrow> take (length p) s = p"

definition endsWith :: "string \<Rightarrow> string \<Rightarrow> bool" where
  "endsWith s p \<longleftrightarrow> length p \<le> length s \<and> drop (length s - length p) s = p"

text \<open>\<^verbatim>\<open>s.replace(/['"]$/, "")\<close>: one trailing quote character is removed.\<close>

definition is_quote :: "char \<Rightarrow> bool" where
  "is_quote c \<longleftrightarrow> c = CHR 0x27 \<or> c = CHR 0x22"

definition strip_trailing_quote :: "string \<Rightarrow> string" where
  "strip_trailing_quote s = (if s \<noteq> [] \<and> is_quote (last s) then butlast s else s)"

text \<open>
  \<^verbatim>\<open>s.split(re)\<close> for a regular expression that matches exactly one character of a
  class (\<open>split_each\<close>, as \<^verbatim>\<open>/[^<>]/\<close>) and for one that matches a maximal run of
  such characters (\<open>split_runs\<close>, as \<^verbatim>\<open>/\s+/\<close>). Neither matches the empty string, so
  the result is never empty: the empty string splits into one empty piece.
\<close>

fun split_each :: "(char \<Rightarrow> bool) \<Rightarrow> string \<Rightarrow> string list" where
  "split_each sep [] = [[]]"
| "split_each sep (c # cs) =
     (if sep c then [] # split_each sep cs
      else (case split_each sep cs of
              [] \<Rightarrow> [[c]]
            | t # ts \<Rightarrow> (c # t) # ts))"

function split_runs :: "(char \<Rightarrow> bool) \<Rightarrow> string \<Rightarrow> string list" where
  "split_runs sep [] = [[]]"
| "split_runs sep (c # cs) =
     (if sep c then [] # split_runs sep (dropWhile sep cs)
      else (case split_runs sep cs of
              [] \<Rightarrow> [[c]]
            | t # ts \<Rightarrow> (c # t) # ts))"
  by pat_completeness auto
termination
  by (relation "measure (\<lambda>(sep, s). length s)")
     (auto simp: less_Suc_eq_le length_dropWhile_le)

text \<open>\<^verbatim>\<open>a.pop()\<close> and \<^verbatim>\<open>a.at(-1)\<close>: the last element, \<^verbatim>\<open>undefined\<close> on an empty array.\<close>

definition at_last :: "'a list \<Rightarrow> 'a option" where
  "at_last xs = (if xs = [] then None else Some (last xs))"

text \<open>\<^verbatim>\<open>c.toUpperCase()\<close> on one ASCII character.\<close>

definition toUpperCase_char :: "char \<Rightarrow> char" where
  "toUpperCase_char c =
     (if (97::nat) \<le> of_char c \<and> of_char c \<le> (122::nat)
      then char_of (of_char c - (32::nat)) else c)"

text \<open>\<^verbatim>\<open>String(name).charAt(0).toUpperCase() + String(name).slice(1)\<close>\<close>

definition capitalize :: "string \<Rightarrow> string" where
  "capitalize name = (case name of [] \<Rightarrow> [] | c # cs \<Rightarrow> toUpperCase_char c # cs)"

section \<open>The context decoder\<close>

text \<open>
  The object that \<^verbatim>\<open>decodeAttribute\<close> returns and that \<^verbatim>\<open>Object.assign\<close> copies into a
  Record. A flag that the object does not carry reads as \<^verbatim>\<open>undefined\<close>, which is
  falsy: it is \<open>False\<close> here. The property with the computed name
  \<^verbatim>\<open>"is" + capitalizedName + "Attribute"\<close> is kept by its name in \<open>roleFlag\<close>.
\<close>

record intelligence =
  attributeName :: "string option"
  isAttributeValueAssignment :: bool
  isAttributeDomain :: bool
  isElementDomain :: bool
  roleFlag :: "string option"

definition no_intelligence :: intelligence where
  "no_intelligence =
     \<lparr>attributeName = None, isAttributeValueAssignment = False, isAttributeDomain = False,
      isElementDomain = False, roleFlag = None\<rparr>"

definition attribute_intelligence :: "string \<Rightarrow> intelligence" where
  "attribute_intelligence name =
     \<lparr>attributeName = Some name, isAttributeValueAssignment = True, isAttributeDomain = False,
      isElementDomain = False, roleFlag = Some (''is'' @ capitalize name @ ''Attribute'')\<rparr>"

definition is_bracket :: "char \<Rightarrow> bool" where
  "is_bracket c \<longleftrightarrow> c = CHR ''<'' \<or> c = CHR ''>''"

definition normalizedCharacterTokens :: "string \<Rightarrow> string" where
  "normalizedCharacterTokens htmlStr =
     (case at_last (split_runs is_space (strip_trailing_quote (trim htmlStr))) of
        None \<Rightarrow> []
      | Some t \<Rightarrow> t)"

definition bracketCycle :: "string \<Rightarrow> string list" where
  "bracketCycle htmlStr =
     filter (\<lambda>token. token \<noteq> []) (split_each (\<lambda>c. \<not> is_bracket c) (trim htmlStr))"

definition decodeAttribute :: "string \<Rightarrow> intelligence" where
  "decodeAttribute htmlStr =
     (if endsWith (normalizedCharacterTokens htmlStr) ''=''
      then attribute_intelligence (butlast (normalizedCharacterTokens htmlStr))
      else if at_last (bracketCycle htmlStr) = Some ''<''
      then no_intelligence\<lparr>isAttributeDomain := True\<rparr>
      else no_intelligence\<lparr>isElementDomain := True\<rparr>)"

text \<open>
  The decoder as the specification words it: of the characters \<open><\<close> and \<open>>\<close> of the
  segment, kept in order, the last one.
\<close>

definition last_retained_bracket :: "string \<Rightarrow> char option" where
  "last_retained_bracket htmlStr = at_last (filter is_bracket htmlStr)"


section \<open>Values\<close>

text \<open>
  A Number that a decimal literal denotes is kept as the literal's exact value:
  \<open>Decimal neg m e\<close> stands for the Number nearest to \<open>(-1)^neg * m * 10^e\<close>.
\<close>

datatype jsnum = NaN | Infinity bool | Decimal bool nat int

text \<open>
  A node of the tree that the external parser builds, as far as node interpolation reads
  it: the identity of the node object, its type, its literal content and its children.
\<close>

datatype xnode = XNode (nid: nat) (ntype: nat) (ncontent: string) (nchildren: "xnode list")

text \<open>
  The values a template interpolates. \<open>VFun\<close>, \<open>VSignal\<close> and \<open>VMap\<close> carry the
  identity of a function and the heap addresses of a Signal and of a \<^verbatim>\<open>Map\<close>; \<open>VNode\<close> is
  a node of a tree. \<open>VObj\<close> is a plain object, given by its own enumerable properties in
  the order of \<^verbatim>\<open>Object.entries\<close>: the object \<^verbatim>\<open>{root, unsubscribe, context}\<close> that a
  template invocation returns is
  \<open>VObj [(''root'', VNode r), (''unsubscribe'', VFun u), (''context'', VMap a)]\<close>.
\<close>

datatype jsval =
    VUndefined
  | VNull
  | VBool bool
  | VNum jsnum
  | VStr string
  | VFun nat
  | VSignal nat
  | VNode xnode
  | VMap nat
  | VArr "jsval list"
  | VObj "(string \<times> jsval) list"

text \<open>\<^verbatim>\<open>x != null\<close> holds of every value but \<^verbatim>\<open>null\<close> and \<^verbatim>\<open>undefined\<close>.\<close>

definition nullish :: "jsval \<Rightarrow> bool" where
  "nullish x \<longleftrightarrow> x = VNull \<or> x = VUndefined"

section \<open>The reactive value\<close>

text \<open>
  A \<^verbatim>\<open>Set\<close> iterates in insertion order and holds a member once: a list, to which
  \<^verbatim>\<open>add\<close> appends a new member and from which \<^verbatim>\<open>delete\<close> removes one.
\<close>

definition Set_add :: "'a \<Rightarrow> 'a list \<Rightarrow> 'a list" where
  "Set_add x xs = (if x \<in> set xs then xs else xs @ [x])"

definition Set_delete :: "'a \<Rightarrow> 'a list \<Rightarrow> 'a list" where
  "Set_delete x xs = removeAll x xs"

text \<open>
  The class \<^verbatim>\<open>Signal\<close>. A subscriber is a function object; \<^typ>\<open>'s\<close> is the type of
  their identities. What a subscriber does when it is called is outside this class, so
  a method returns the calls it makes, in order, as pairs of the subscriber and its
  argument.
\<close>

record 's Signal =
  signal_id :: string
  signal_value :: jsval
  v :: jsval
  subscribers :: "'s list"
  disposables :: "nat list"

definition new_Signal :: "string \<Rightarrow> jsval \<Rightarrow> 's Signal" where
  "new_Signal i x =
     \<lparr>signal_id = i, signal_value = x, v = x, subscribers = [], disposables = []\<rparr>"

definition notify :: "'s Signal \<Rightarrow> ('s \<times> jsval) list" where
  "notify s = map (\<lambda>subscriber. (subscriber, signal_value s)) (subscribers s)"

text \<open>
  The setter of \<^verbatim>\<open>value\<close>. The comparison \<^verbatim>\<open>newValue == this.#value\<close> of the language
  is the parameter \<open>loose\<close>: on two Numbers it compares doubles, and on an object and a
  primitive it runs the object's own conversion.
\<close>

definition set_value ::
  "(jsval \<Rightarrow> jsval \<Rightarrow> bool) \<Rightarrow> jsval \<Rightarrow> 's Signal \<Rightarrow> 's Signal \<times> ('s \<times> jsval) list" where
  "set_value loose newValue s =
     (if loose newValue (signal_value s) then (s, [])
      else (s\<lparr>signal_value := newValue\<rparr>, notify (s\<lparr>signal_value := newValue\<rparr>)))"

text \<open>
  \<^verbatim>\<open>subscribe\<close> returns the closure \<^verbatim>\<open>() => this.#subscribers.delete(subscriber)\<close>;
  \<open>unsubscribe_handle subscriber\<close> is what calling that closure does to the Signal.
\<close>

definition subscribe :: "'s \<Rightarrow> 's Signal \<Rightarrow> 's Signal \<times> ('s \<times> jsval) list" where
  "subscribe subscriber s =
     (s\<lparr>subscribers := Set_add subscriber (subscribers s)\<rparr>,
      if \<not> nullish (signal_value s) then [(subscriber, signal_value s)] else [])"

definition unsubscribe_handle :: "'s \<Rightarrow> 's Signal \<Rightarrow> 's Signal" where
  "unsubscribe_handle subscriber s =
     s\<lparr>subscribers := Set_delete subscriber (subscribers s)\<rparr>"

text \<open>
  The comparison \<^verbatim>\<open>==\<close> on \<^verbatim>\<open>undefined\<close>, \<^verbatim>\<open>null\<close> and strings, where it needs no
  conversion: used to run the setter on concrete values.
\<close>

definition loose_text :: "jsval \<Rightarrow> jsval \<Rightarrow> bool" where
  "loose_text x y \<longleftrightarrow> (nullish x \<and> nullish y) \<or> x = y"


section \<open>Records and the record database\<close>

text \<open>The decimal digits of an index, as \<^verbatim>\<open>"::" + index\<close> writes them.\<close>

definition digit_char :: "nat \<Rightarrow> char" where
  "digit_char d = char_of (48 + d)"

function string_of_nat :: "nat \<Rightarrow> string" where
  "string_of_nat n =
     (if n < 10 then [digit_char n] else string_of_nat (n div 10) @ [digit_char (n mod 10)])"
  by pat_completeness auto
termination
  by (relation "measure (\<lambda>n. n)") auto

declare string_of_nat.simps [simp del]

text \<open>
  A subscriber that attribute interpolation registers is a closure over the node and,
  by its place in the source, over an attribute name, a style property or the Record
  (by its id). A cleanup handle is the closure that \<^verbatim>\<open>subscribe\<close> returned: it names the
  Signal, by address, and the subscriber.
\<close>

datatype callback =
    StyleSubscriber nat string
  | StylePropertySubscriber nat string
  | ClassSubscriber nat
  | AttributeSubscriber nat string

datatype handle = Unsubscribe nat callback

datatype error = TypeError | ReferenceError string | LookupError string

text \<open>
  The class \<^verbatim>\<open>Record\<close>. The properties that \<^verbatim>\<open>Object.assign\<close> copies from the third
  argument of the constructor are the fields of \<^typ>\<open>intelligence\<close>. The field
  \<^verbatim>\<open>isTemplateChunk\<close> of the class is \<^verbatim>\<open>false\<close> on every Record (its initialiser, and no
  assignment), and is left out.
\<close>

record Record = intelligence +
  record_id :: string
  content :: jsval
  unsubscribe :: "handle list"
  isTemplateVariable :: bool

datatype intelligence_argument = FromString string | FromObject intelligence | Absent

definition new_Record :: "string \<Rightarrow> jsval \<Rightarrow> intelligence_argument \<Rightarrow> Record" where
  "new_Record i c a =
     intelligence.extend
       (case a of
          FromString s \<Rightarrow> decodeAttribute s
        | FromObject obj \<Rightarrow> obj
        | Absent \<Rightarrow> no_intelligence)
       (Record.fields i c [] True)"

text \<open>
  The getter \<^verbatim>\<open>type\<close> and the type tests built on it. The getter returns the name of
  the content's primitive type or class; the names it can return are the constructors of
  \<open>type_name\<close>, with \<open>Other_class\<close> for the class of a tree node, which the parser
  names.
\<close>

datatype type_name =
    Null_type | Undefined_type | Boolean_type | Number_type | String_type | Function_type
  | Signal_class | Map_class | Array_class | Object_class | Other_class

definition record_type :: "Record \<Rightarrow> type_name" where
  "record_type r =
     (case content r of
        VNull \<Rightarrow> Null_type
      | VUndefined \<Rightarrow> Undefined_type
      | VBool b \<Rightarrow> Boolean_type
      | VNum n \<Rightarrow> Number_type
      | VStr s \<Rightarrow> String_type
      | VFun f \<Rightarrow> Function_type
      | VSignal a \<Rightarrow> Signal_class
      | VNode n \<Rightarrow> Other_class
      | VMap a \<Rightarrow> Map_class
      | VArr xs \<Rightarrow> Array_class
      | VObj ps \<Rightarrow> Object_class)"

definition isSignalType :: "Record \<Rightarrow> bool" where
  "isSignalType r \<longleftrightarrow> record_type r = Signal_class"

definition isObjectType :: "Record \<Rightarrow> bool" where
  "isObjectType r \<longleftrightarrow> record_type r = Object_class"

definition isFunctionType :: "Record \<Rightarrow> bool" where
  "isFunctionType r \<longleftrightarrow> record_type r = Function_type"

definition isStringType :: "Record \<Rightarrow> bool" where
  "isStringType r \<longleftrightarrow> record_type r = String_type"

definition isNumberType :: "Record \<Rightarrow> bool" where
  "isNumberType r \<longleftrightarrow> record_type r = Number_type"

definition isArrayType :: "Record \<Rightarrow> bool" where
  "isArrayType r \<longleftrightarrow> record_type r = Array_class"

definition isStyleAttribute :: "Record \<Rightarrow> bool" where
  "isStyleAttribute r \<longleftrightarrow> roleFlag r = Some ''isStyleAttribute''"

definition isClassAttribute :: "Record \<Rightarrow> bool" where
  "isClassAttribute r \<longleftrightarrow> roleFlag r = Some ''isClassAttribute''"

text \<open>
  The record database is a \<^verbatim>\<open>Map\<close> from ids to Records: an association list in
  insertion order, where \<^verbatim>\<open>set\<close> replaces the value of a key in place or appends a new
  key, and \<^verbatim>\<open>get\<close> is \<^const>\<open>map_of\<close>.
\<close>

type_synonym database = "(string \<times> Record) list"

definition Map_set :: "string \<Rightarrow> Record \<Rightarrow> database \<Rightarrow> database" where
  "Map_set k r m = AList.update k r m"

section \<open>The marker stream builder\<close>

datatype stream_entry = TemplateChunk string | Reference string

text \<open>\<^verbatim>\<open>values[index]\<close>: \<^verbatim>\<open>undefined\<close> beyond the end of the array.\<close>

definition value_at :: "jsval list \<Rightarrow> nat \<Rightarrow> jsval" where
  "value_at values i = (if i < length values then values ! i else VUndefined)"

definition recordId :: "nat \<Rightarrow> string" where
  "recordId index = ''::'' @ string_of_nat index"

fun createStream_loop ::
  "jsval list \<Rightarrow> nat \<Rightarrow> string list \<Rightarrow> database \<times> stream_entry list
     \<Rightarrow> database \<times> stream_entry list" where
  "createStream_loop values index [] (context, stream) = (context, stream)"
| "createStream_loop values index (string # rest) (context, stream) =
     (if value_at values index = VUndefined
      then createStream_loop values (Suc index) rest (context, stream @ [TemplateChunk string])
      else createStream_loop values (Suc index) rest
             (Map_set (recordId index)
                (new_Record (recordId index) (value_at values index) (FromString string))
                context,
              stream @ [TemplateChunk string, Reference (recordId index)]))"

definition createStream ::
  "database \<Rightarrow> string list \<Rightarrow> jsval list \<Rightarrow> database \<times> stream_entry list" where
  "createStream context strings values = createStream_loop values 0 strings (context, [])"

text \<open>The entry that the loop stores for an index and its segment.\<close>

definition slot :: "jsval list \<Rightarrow> nat \<times> string \<Rightarrow> string \<times> Record" where
  "slot values p =
     (recordId (fst p),
      new_Record (recordId (fst p)) (value_at values (fst p)) (FromString (snd p)))"

text \<open>
  What \<^verbatim>\<open>createIntermediateHtml\<close> pushes for one entry of the stream. A reference to an
  id that the database does not hold makes the destructuring of \<^verbatim>\<open>undefined\<close> throw.
\<close>

fun fragment_html :: "database \<Rightarrow> stream_entry \<Rightarrow> error + string list" where
  "fragment_html context (TemplateChunk s) = Inr [s]"
| "fragment_html context (Reference i) =
     (case map_of context i of
        None \<Rightarrow> Inl TypeError
      | Some fragment \<Rightarrow>
          Inr (if isTemplateVariable fragment \<and> isAttributeValueAssignment fragment then [i]
               else if isTemplateVariable fragment \<and> isAttributeDomain fragment
               then [i @ [CHR ''='', CHR 0x22, CHR 0x22]]
               else if isTemplateVariable fragment \<and> isElementDomain fragment
               then [''<!--'' @ i @ ''-->'']
               else []))"

fun createIntermediateHtml_loop ::
  "database \<Rightarrow> stream_entry list \<Rightarrow> string list \<Rightarrow> error + string list" where
  "createIntermediateHtml_loop context [] result = Inr result"
| "createIntermediateHtml_loop context (entry # rest) result =
     (case fragment_html context entry of
        Inl e \<Rightarrow> Inl e
      | Inr pieces \<Rightarrow> createIntermediateHtml_loop context rest (result @ pieces))"

definition createIntermediateHtml :: "stream_entry list \<Rightarrow> database \<Rightarrow> error + string" where
  "createIntermediateHtml stream context =
     (case createIntermediateHtml_loop context stream [] of
        Inl e \<Rightarrow> Inl e
      | Inr result \<Rightarrow> Inr (concat result))"

text \<open>The ids of the references of a stream.\<close>

definition references :: "stream_entry list \<Rightarrow> string list" where
  "references stream = concat (map (\<lambda>e. case e of Reference i \<Rightarrow> [i] | TemplateChunk s \<Rightarrow> []) stream)"

text \<open>The indices at which a value is defined, in order.\<close>

definition defined_indices :: "string list \<Rightarrow> jsval list \<Rightarrow> nat list" where
  "defined_indices strings values =
     filter (\<lambda>i. value_at values i \<noteq> VUndefined) [0..<length strings]"

section \<open>Reading numbers\<close>

text \<open>
  \<^verbatim>\<open>parseFloat\<close> reads the longest prefix of the string, after its leading white space,
  that is a decimal literal: a sign, then \<^verbatim>\<open>Infinity\<close> or digits with a fraction and an
  exponent. \<^verbatim>\<open>isNaN\<close> of a string converts the whole string: white space around it is
  dropped, the empty string is 0, and the rest must be one decimal literal or one
  binary, octal or hexadecimal literal.
\<close>

definition is_digit :: "char \<Rightarrow> bool" where
  "is_digit c \<longleftrightarrow> (48::nat) \<le> of_char c \<and> of_char c \<le> (57::nat)"

definition digits_value :: "string \<Rightarrow> nat" where
  "digits_value ds = foldl (\<lambda>n c. 10 * n + (of_char c - 48)) 0 ds"

definition signed_integer :: "string \<Rightarrow> (int \<times> string) option" where
  "signed_integer s =
     (let neg = (s \<noteq> [] \<and> hd s = CHR ''-'');
          r = (if s \<noteq> [] \<and> (hd s = CHR ''-'' \<or> hd s = CHR ''+'') then tl s else s);
          ds = takeWhile is_digit r
      in if ds = [] then None
         else Some (if neg then - int (digits_value ds) else int (digits_value ds),
                    dropWhile is_digit r))"

definition exponent_part :: "string \<Rightarrow> int \<times> string" where
  "exponent_part s =
     (if s \<noteq> [] \<and> (hd s = CHR ''e'' \<or> hd s = CHR ''E'')
      then (case signed_integer (tl s) of None \<Rightarrow> (0, s) | Some (e, r) \<Rightarrow> (e, r))
      else (0, s))"

definition unsigned_decimal :: "bool \<Rightarrow> string \<Rightarrow> (jsnum \<times> string) option" where
  "unsigned_decimal neg s =
     (if startsWith s ''Infinity'' then Some (Infinity neg, drop 8 s)
      else
        (let ds1 = takeWhile is_digit s; r1 = dropWhile is_digit s in
         if r1 \<noteq> [] \<and> hd r1 = CHR ''.''
         then
           (let ds2 = takeWhile is_digit (tl r1); r2 = dropWhile is_digit (tl r1) in
            if ds1 = [] \<and> ds2 = [] then None
            else Some (Decimal neg (digits_value (ds1 @ ds2))
                         (fst (exponent_part r2) - int (length ds2)),
                       snd (exponent_part r2)))
         else if ds1 = [] then None
         else Some (Decimal neg (digits_value ds1) (fst (exponent_part r1)),
                    snd (exponent_part r1))))"

definition decimal_literal_prefix :: "string \<Rightarrow> (jsnum \<times> string) option" where
  "decimal_literal_prefix s =
     (if s \<noteq> [] \<and> hd s = CHR ''-'' then unsigned_decimal True (tl s)
      else if s \<noteq> [] \<and> hd s = CHR ''+'' then unsigned_decimal False (tl s)
      else unsigned_decimal False s)"

definition parseFloat :: "string \<Rightarrow> jsnum" where
  "parseFloat s =
     (case decimal_literal_prefix (trimStart s) of None \<Rightarrow> NaN | Some (x, rest) \<Rightarrow> x)"

definition radix_digit :: "nat \<Rightarrow> char \<Rightarrow> nat option" where
  "radix_digit radix c =
     (let n = (of_char c :: nat);
          d = (if 48 \<le> n \<and> n \<le> 57 then n - 48
               else if 97 \<le> n \<and> n \<le> 102 then n - 87
               else if 65 \<le> n \<and> n \<le> 70 then n - 55
               else 16)
      in if d < radix then Some d else None)"

fun radix_value :: "nat \<Rightarrow> nat \<Rightarrow> string \<Rightarrow> nat option" where
  "radix_value radix acc [] = Some acc"
| "radix_value radix acc (c # cs) =
     (case radix_digit radix c of
        None \<Rightarrow> None
      | Some d \<Rightarrow> radix_value radix (radix * acc + d) cs)"

definition non_decimal_literal :: "string \<Rightarrow> nat option" where
  "non_decimal_literal s =
     (if length s < 3 \<or> hd s \<noteq> CHR ''0'' then None
      else if s ! 1 = CHR ''x'' \<or> s ! 1 = CHR ''X'' then radix_value 16 0 (drop 2 s)
      else if s ! 1 = CHR ''o'' \<or> s ! 1 = CHR ''O'' then radix_value 8 0 (drop 2 s)
      else if s ! 1 = CHR ''b'' \<or> s ! 1 = CHR ''B'' then radix_value 2 0 (drop 2 s)
      else None)"

definition StringToNumber :: "string \<Rightarrow> jsnum" where
  "StringToNumber s =
     (if trim s = [] then Decimal False 0 0
      else
        (case non_decimal_literal (trim s) of
           Some n \<Rightarrow> Decimal False n 0
         | None \<Rightarrow>
             (case decimal_literal_prefix (trim s) of
                None \<Rightarrow> NaN
              | Some (x, rest) \<Rightarrow> if rest = [] then x else NaN)))"

text \<open>\<^verbatim>\<open>isNaN(value)\<close> for a string \<open>value\<close>.\<close>

definition isNaN :: "string \<Rightarrow> bool" where
  "isNaN s \<longleftrightarrow> StringToNumber s = NaN"

section \<open>Attribute interpolation\<close>

definition parseElementAttributeValue :: "jsval \<Rightarrow> jsval" where
  "parseElementAttributeValue x =
     (case x of
        VStr s \<Rightarrow>
          if CHR ''%'' \<in> set s
          then VObj [(''value'', VNum (parseFloat s)), (''unit'', VStr ''%'')]
          else if \<not> isNaN s then VNum (parseFloat s)
          else x
      | _ \<Rightarrow> x)"

text \<open>
  An attribute of a node is an object with a name and a value; the attributes of a node
  are an array, in which \<^verbatim>\<open>delete\<close> leaves an empty slot (\<open>None\<close>).

  The state that attribute interpolation works on: the counter \<^verbatim>\<open>id\<close> of the module
  (it starts at 1), the Signal objects by address, and the record database.
\<close>

record attribute =
  attr_name :: string
  attr_value :: jsval

record world =
  id_counter :: nat
  signals :: "callback Signal list"
  database :: database

definition generateId :: "world \<Rightarrow> string \<times> world" where
  "generateId w = (''id'' @ string_of_nat (id_counter w), w\<lparr>id_counter := Suc (id_counter w)\<rparr>)"

text \<open>
  \<^verbatim>\<open>new Signal(x)\<close>: the address of the new object, and the state that holds it. The
  class is the one defined beside \<^verbatim>\<open>generateId\<close>, whose constructor takes its id from the
  counter when none is passed.
\<close>

definition construct_Signal :: "jsval \<Rightarrow> world \<Rightarrow> nat \<times> world" where
  "construct_Signal x w =
     (length (signals w),
      (snd (generateId w))\<lparr>signals := signals w @ [new_Signal (fst (generateId w)) x]\<rparr>)"

text \<open>The branch \<^verbatim>\<open>if (isPlainAttribute)\<close> of the loop, for the attribute at \<open>index\<close>.\<close>

definition upgrade_plain ::
  "nat \<Rightarrow> attribute \<Rightarrow> attribute option list \<times> world \<Rightarrow> attribute option list \<times> world" where
  "upgrade_plain index a st =
     (let signal = fst (construct_Signal (parseElementAttributeValue (attr_value a)) (snd st));
          w = snd (construct_Signal (parseElementAttributeValue (attr_value a)) (snd st));
          i = signal_id (signals w ! signal)
      in ((fst st)[index := Some (a\<lparr>attr_value := VSignal signal\<rparr>)],
          w\<lparr>database := Map_set i (new_Record i (VSignal signal) Absent) (database w)\<rparr>))"

text \<open>
  The loop over \<^verbatim>\<open>Object.entries(packet.content)\<close>. An entry of \<open>newAttributes\<close> is
  \<^verbatim>\<open>{after, name, value}\<close>.
\<close>

fun spread_fields ::
  "string \<Rightarrow> nat \<Rightarrow> nat \<Rightarrow> (string \<times> jsval) list \<Rightarrow> (nat \<times> attribute) list \<times> world
     \<Rightarrow> (nat \<times> attribute) list \<times> world" where
  "spread_fields name index localIndex [] st = st"
| "spread_fields name index localIndex ((field, x) # rest) st =
     (let signal = fst (construct_Signal x (snd st));
          w = snd (construct_Signal x (snd st));
          i = name @ ''-'' @ field
      in spread_fields name index (Suc localIndex) rest
           (fst st @ [(index + localIndex,
                       \<lparr>attr_name = field, attr_value = VSignal signal\<rparr>)],
            w\<lparr>database :=
                 Map_set i (new_Record i x (FromObject (attribute_intelligence field)))
                   (database w)\<rparr>))"

text \<open>\<^verbatim>\<open>Object.entries\<close> of the content of a Record whose type is \<^verbatim>\<open>"Object"\<close>.\<close>

definition Object_entries :: "jsval \<Rightarrow> (string \<times> jsval) list" where
  "Object_entries x = (case x of VObj ps \<Rightarrow> ps | _ \<Rightarrow> [])"

text \<open>The branch \<^verbatim>\<open>if (isSpreadReference)\<close> of the loop.\<close>

definition expand_spread ::
  "nat \<Rightarrow> attribute \<Rightarrow> attribute option list \<times> (nat \<times> attribute) list \<times> world
     \<Rightarrow> attribute option list \<times> (nat \<times> attribute) list \<times> world" where
  "expand_spread index a st =
     (case st of (attrs, newAttributes, w) \<Rightarrow>
        (case map_of (database w) (attr_name a) of
           None \<Rightarrow> (attrs[index := None], newAttributes, w)
         | Some packet \<Rightarrow>
             if isObjectType packet
             then (attrs[index := None],
                   spread_fields (attr_name a) index 1 (Object_entries (content packet))
                     (newAttributes, w))
             else (attrs[index := None], newAttributes, w)))"

text \<open>
  The loop over \<^verbatim>\<open>node.attributes.entries()\<close>. The body of the loop writes the array at
  the index it visits only, so the entries it reads are those the array had before the
  loop. Reading the name of an empty slot throws.
\<close>

fun attributes_loop ::
  "nat \<Rightarrow> attribute option list \<Rightarrow> attribute option list \<times> (nat \<times> attribute) list \<times> world
     \<Rightarrow> error + attribute option list \<times> (nat \<times> attribute) list \<times> world" where
  "attributes_loop index [] st = Inr st"
| "attributes_loop index (None # rest) st = Inl TypeError"
| "attributes_loop index (Some a # rest) st =
     (case st of (attrs, newAttributes, w) \<Rightarrow>
        attributes_loop (Suc index) rest
          (if \<not> startsWith (attr_name a) ''::''
           then (fst (upgrade_plain index a (attrs, w)), newAttributes,
                 snd (upgrade_plain index a (attrs, w)))
           else expand_spread index a (attrs, newAttributes, w)))"

text \<open>\<^verbatim>\<open>node.attributes.splice(after, 0, {name, value})\<close>\<close>

definition splice_in :: "attribute option list \<Rightarrow> nat \<times> attribute \<Rightarrow> attribute option list" where
  "splice_in attrs n = take (fst n) attrs @ [Some (snd n)] @ drop (fst n) attrs"

text \<open>The callback of \<^verbatim>\<open>root.walk\<close>, on the attribute array of one node.\<close>

definition interpolate_node ::
  "attribute option list \<Rightarrow> world \<Rightarrow> error + attribute option list \<times> world" where
  "interpolate_node attrs w =
     (case attributes_loop 0 attrs (attrs, [], w) of
        Inl e \<Rightarrow> Inl e
      | Inr (attrs', newAttributes, w') \<Rightarrow> Inr (foldl splice_in attrs' newAttributes, w'))"

text \<open>
  \<^verbatim>\<open>interpolateAttributes\<close>. The walk of the tree belongs to the external parser; it
  calls the callback once on each element node, in document order. The tree is given
  here by the attribute arrays of its element nodes in that order.
\<close>

fun interpolateAttributes ::
  "attribute option list list \<Rightarrow> world \<Rightarrow> error + attribute option list list \<times> world" where
  "interpolateAttributes [] w = Inr ([], w)"
| "interpolateAttributes (attrs # nodes) w =
     (case interpolate_node attrs w of
        Inl e \<Rightarrow> Inl e
      | Inr (attrs', w') \<Rightarrow>
          (case interpolateAttributes nodes w' of
             Inl e \<Rightarrow> Inl e
           | Inr (nodes', w'') \<Rightarrow> Inr (attrs' # nodes', w'')))"

section \<open>Attribute interpolation with direct markers\<close>

text \<open>
  \<^verbatim>\<open>interpolateAttributes2\<close>. Its callback on a node first collects, from the attributes
  of the node, the Records to bind (a spread marker gives one Record per field, a direct
  marker gives the Record that its value names, and throws when the database has none),
  and then binds each collected Record by an if-chain on the type of its content and on
  its role.

  The branch that the if-chain takes is \<open>dispatch\<close>. What a branch does belongs to the
  live surface of the node (its style, class list, attributes and properties) and to
  the Signals it subscribes to; it is the parameter \<open>apply\<close> of the functions below, a
  function on a state \<^typ>\<open>'b\<close> of the bindings that may throw.
\<close>

datatype binding_kind =
    Reactive_style | Class_array | Reactive_attribute | Static_style | Object_properties
  | Function_property | Primitive_attribute | Coerced_attribute | No_binding

definition dispatch :: "Record \<Rightarrow> binding_kind" where
  "dispatch record =
     (if isSignalType record \<and> isStyleAttribute record then Reactive_style
      else if isClassAttribute record \<and> isArrayType record then Class_array
      else if isSignalType record then Reactive_attribute
      else if isObjectType record \<and> isStyleAttribute record then Static_style
      else if isObjectType record then Object_properties
      else if isFunctionType record then Function_property
      else if isStringType record \<or> isNumberType record then Primitive_attribute
      else if \<not> nullish (content record) then Coerced_attribute
      else No_binding)"

text \<open>The loop over the fields of a spread marker: the new Records, stored and collected.\<close>

fun spread_records ::
  "string \<Rightarrow> (string \<times> jsval) list \<Rightarrow> (string \<times> Record) list \<times> database
     \<Rightarrow> (string \<times> Record) list \<times> database" where
  "spread_records name [] st = st"
| "spread_records name ((field, x) # rest) st =
     spread_records name rest
       (fst st @ [(field, new_Record (name @ ''-'' @ field) x
                            (FromObject (attribute_intelligence field)))],
        Map_set (name @ ''-'' @ field)
          (new_Record (name @ ''-'' @ field) x (FromObject (attribute_intelligence field)))
          (snd st))"

text \<open>
  The first \<^verbatim>\<open>if\<close> of the callback of \<^verbatim>\<open>forEach\<close>, on the attribute at \<open>index\<close>. The state
  is the attribute array, \<open>attributesToProcess\<close> and the database.
\<close>

definition collect_spread ::
  "nat \<Rightarrow> attribute \<Rightarrow> attribute option list \<times> (string \<times> Record) list \<times> database
     \<Rightarrow> attribute option list \<times> (string \<times> Record) list \<times> database" where
  "collect_spread index a st =
     (case st of (attrs, toProcess, db) \<Rightarrow>
        if startsWith (attr_name a) ''::''
        then
          (case map_of db (attr_name a) of
             None \<Rightarrow> (attrs[index := None], toProcess, db)
           | Some packet \<Rightarrow>
               if isObjectType packet
               then (attrs[index := None],
                     spread_records (attr_name a) (Object_entries (content packet)) (toProcess, db))
               else (attrs[index := None], toProcess, db))
        else st)"

text \<open>
  \<^verbatim>\<open>node.attributes.forEach\<close>, over the entries the array had before the loop (the
  callback deletes at the index it visits only); an empty slot is skipped. The second
  \<^verbatim>\<open>if\<close> calls \<^verbatim>\<open>startsWith\<close> on the value of the attribute, which throws when the value is
  no string, and throws the lookup error for a record id that the database does not
  hold. The loop returns the state it reached and the error, if one was thrown.
\<close>

fun collect_attributes ::
  "nat \<Rightarrow> attribute option list \<Rightarrow> attribute option list \<times> (string \<times> Record) list \<times> database
     \<Rightarrow> (attribute option list \<times> (string \<times> Record) list \<times> database) \<times> error option" where
  "collect_attributes index [] st = (st, None)"
| "collect_attributes index (None # rest) st = collect_attributes (Suc index) rest st"
| "collect_attributes index (Some a # rest) st =
     (case attr_value a of
        VStr ref \<Rightarrow>
          if startsWith ref ''::''
          then
            (case map_of (snd (snd (collect_spread index a st))) ref of
               None \<Rightarrow> (collect_spread index a st, Some (LookupError ref))
             | Some attributePayload \<Rightarrow>
                 collect_attributes (Suc index) rest
                   ((fst (collect_spread index a st))[index := None],
                    fst (snd (collect_spread index a st)) @ [(attr_name a, attributePayload)],
                    snd (snd (collect_spread index a st))))
          else collect_attributes (Suc index) rest (collect_spread index a st)
      | _ \<Rightarrow> (collect_spread index a st, Some TypeError))"

text \<open>The loop over \<open>attributesToProcess\<close>, on the node \<open>node\<close>.\<close>

fun process_attributes ::
  "(nat \<Rightarrow> string \<Rightarrow> Record \<Rightarrow> binding_kind \<Rightarrow> 'b \<Rightarrow> 'b \<times> error option) \<Rightarrow> nat
     \<Rightarrow> (string \<times> Record) list \<Rightarrow> 'b \<Rightarrow> 'b \<times> error option" where
  "process_attributes apply node [] b = (b, None)"
| "process_attributes apply node (p # rest) b =
     (case apply node (fst p) (snd p) (dispatch (snd p)) b of
        (b', Some e) \<Rightarrow> (b', Some e)
      | (b', None) \<Rightarrow> process_attributes apply node rest b')"

text \<open>
  The walk over the element nodes, given by their attribute arrays in document order and
  named by their position. The result is the arrays, the database and the bindings as
  they are when the walk ends or throws.
\<close>

fun interpolateAttributes2_walk ::
  "(nat \<Rightarrow> string \<Rightarrow> Record \<Rightarrow> binding_kind \<Rightarrow> 'b \<Rightarrow> 'b \<times> error option) \<Rightarrow> nat
     \<Rightarrow> attribute option list list \<Rightarrow> database \<times> 'b
     \<Rightarrow> (attribute option list list \<times> database \<times> 'b) \<times> error option" where
  "interpolateAttributes2_walk apply node [] st = (([], st), None)"
| "interpolateAttributes2_walk apply node (attrs # nodes) st =
     (case collect_attributes 0 attrs (attrs, [], fst st) of
        ((attrs', toProcess, db'), Some e) \<Rightarrow> ((attrs' # nodes, db', snd st), Some e)
      | ((attrs', toProcess, db'), None) \<Rightarrow>
          (case process_attributes apply node toProcess (snd st) of
             (b', Some e) \<Rightarrow> ((attrs' # nodes, db', b'), Some e)
           | (b', None) \<Rightarrow>
               (case interpolateAttributes2_walk apply (Suc node) nodes (db', b') of
                  ((nodes', st'), r) \<Rightarrow> ((attrs' # nodes', st'), r))))"

definition interpolateAttributes2 ::
  "(nat \<Rightarrow> string \<Rightarrow> Record \<Rightarrow> binding_kind \<Rightarrow> 'b \<Rightarrow> 'b \<times> error option)
     \<Rightarrow> attribute option list list \<Rightarrow> database \<Rightarrow> 'b
     \<Rightarrow> (attribute option list list \<times> database \<times> 'b) \<times> error option" where
  "interpolateAttributes2 apply nodes db b = interpolateAttributes2_walk apply 0 nodes (db, b)"

text \<open>
  A surface that keeps, in order, which binding was applied to which attribute of which
  node, and never throws.
\<close>

definition log_binding ::
  "nat \<Rightarrow> string \<Rightarrow> Record \<Rightarrow> binding_kind \<Rightarrow> (nat \<times> string \<times> binding_kind) list
     \<Rightarrow> (nat \<times> string \<times> binding_kind) list \<times> error option" where
  "log_binding node name record kind b = (b @ [(node, name, kind)], None)"

section \<open>Node interpolation\<close>

text \<open>
  Modelled from the spec: the tree operations of the external parser that node
  interpolation calls. The specification lists them as the lookup of the nodes of a type
  whose literal text satisfies a predicate, sibling insertion (insert after), self-removal
  and a children accessor (\<^const>\<open>nchildren\<close>). A node object is named by its identity:
  \<open>findType\<close> visits the tree in document order, \<open>after m new\<close> puts the nodes \<open>new\<close>
  behind the node \<open>m\<close> among the children of its parent, and \<open>remove m\<close> takes the node
  \<open>m\<close> out of the children of its parent. A node without a parent (the root) is left as
  it is by both.
\<close>

fun findType :: "nat \<Rightarrow> (xnode \<Rightarrow> bool) \<Rightarrow> xnode \<Rightarrow> xnode list" where
  "findType t p (XNode i ty c ch) =
     (if ty = t \<and> p (XNode i ty c ch) then [XNode i ty c ch] else [])
     @ concat (map (findType t p) ch)"

fun after :: "nat \<Rightarrow> xnode list \<Rightarrow> xnode \<Rightarrow> xnode" where
  "after m new (XNode i ty c ch) =
     XNode i ty c
       (concat (map (\<lambda>x. if nid x = m then after m new x # new else [after m new x]) ch))"

fun remove :: "nat \<Rightarrow> xnode \<Rightarrow> xnode" where
  "remove m (XNode i ty c ch) =
     XNode i ty c (map (remove m) (filter (\<lambda>x. nid x \<noteq> m) ch))"

text \<open>The identities of the nodes below a node.\<close>

fun descendant_ids :: "xnode \<Rightarrow> nat list" where
  "descendant_ids (XNode i ty c ch) = concat (map (\<lambda>x. nid x # descendant_ids x) ch)"

text \<open>
  The state of node interpolation: the tree, the \<^verbatim>\<open>Map\<close> objects by address (the record
  database of the invocation and those of the nested template results), and the nodes
  for which \<^verbatim>\<open>console.warn\<close> was called.
\<close>

record node_world =
  tree :: xnode
  maps :: "database list"
  warnings :: "nat list"

text \<open>\<^verbatim>\<open>remoteContext.forEach((value, key) => database.set(key, value))\<close>\<close>

definition merge_into :: "database \<Rightarrow> database \<Rightarrow> database" where
  "merge_into m remoteContext = foldl (\<lambda>m kv. Map_set (fst kv) (snd kv) m) m remoteContext"

text \<open>
  The body of the loop over \<open>commentNodes\<close>, for the record database at address \<open>d\<close>.
  The destructuring of the content of the Record throws on \<^verbatim>\<open>null\<close> and \<^verbatim>\<open>undefined\<close>; a
  content that is not an object with a \<^verbatim>\<open>Map\<close> as \<^verbatim>\<open>context\<close> and a node as \<^verbatim>\<open>root\<close> makes
  the calls of \<^verbatim>\<open>forEach\<close>, \<^verbatim>\<open>clear\<close> or the spread of \<^verbatim>\<open>root.children\<close> throw. An
  address names a \<^verbatim>\<open>Map\<close> of the state; the two tests on the length of \<open>maps\<close> make the
  function total on a state where it does not.
\<close>

definition import_marker :: "nat \<Rightarrow> xnode \<Rightarrow> node_world \<Rightarrow> error + node_world" where
  "import_marker d commentNode w =
     (if length (maps w) \<le> d then Inl TypeError
      else
        (case map_of (maps w ! d) (ncontent commentNode) of
           None \<Rightarrow> Inr (w\<lparr>warnings := warnings w @ [nid commentNode]\<rparr>)
         | Some r \<Rightarrow>
             (case content r of
                VObj ps \<Rightarrow>
                  (case (map_of ps ''root'', map_of ps ''context'') of
                     (Some (VNode root), Some (VMap a)) \<Rightarrow>
                       if length (maps w) \<le> a then Inl TypeError
                       else
                         (let merged = (maps w)[d := merge_into (maps w ! d) (maps w ! a)];
                              cleared = merged[a := []];
                              nodesToImport = nchildren root
                          in if length nodesToImport > 0
                             then Inr (w\<lparr>tree := after (nid commentNode) nodesToImport (tree w),
                                        maps := cleared\<rparr>)
                             else Inr (w\<lparr>maps := cleared,
                                        warnings := warnings w @ [nid commentNode]\<rparr>))
                   | _ \<Rightarrow> Inl TypeError)
              | _ \<Rightarrow> Inl TypeError)))"

fun import_markers :: "nat \<Rightarrow> xnode list \<Rightarrow> node_world \<Rightarrow> error + node_world" where
  "import_markers d [] w = Inr w"
| "import_markers d (commentNode # rest) w =
     (case import_marker d commentNode w of
        Inl e \<Rightarrow> Inl e
      | Inr w' \<Rightarrow> import_markers d rest w')"

definition remove_all :: "xnode list \<Rightarrow> xnode \<Rightarrow> xnode" where
  "remove_all nodesToRemove t = foldl (\<lambda>t node. remove (nid node) t) t nodesToRemove"

definition commentNodes :: "xnode \<Rightarrow> xnode list" where
  "commentNodes root = findType 1 (\<lambda>node. startsWith (ncontent node) ''::'') root"

definition interpolateNodes :: "nat \<Rightarrow> node_world \<Rightarrow> error + node_world" where
  "interpolateNodes d w =
     (if commentNodes (tree w) = [] then Inr w
      else
        (case import_markers d (commentNodes (tree w)) w of
           Inl e \<Rightarrow> Inl e
         | Inr w' \<Rightarrow> Inr (w'\<lparr>tree := remove_all (commentNodes (tree w)) (tree w')\<rparr>)))"

text \<open>
  The tree in which every node named by \<open>\<sigma>\<close> is replaced by the nodes that \<open>\<sigma>\<close> gives
  for it.
\<close>

fun replace_nodes :: "(nat \<Rightarrow> xnode list option) \<Rightarrow> xnode \<Rightarrow> xnode" where
  "replace_nodes \<sigma> (XNode i ty c ch) =
     XNode i ty c
       (concat (map (\<lambda>x. case \<sigma> (nid x) of None \<Rightarrow> [replace_nodes \<sigma> x] | Some new \<Rightarrow> new) ch))"

text \<open>
  An example: a marker \<open>::0\<close> whose Record holds a template result with two children and
  one entry in its record database, and a marker \<open>::5\<close> that has no Record.
\<close>

definition example_result :: jsval where
  "example_result =
     VObj [(''root'', VNode (XNode 10 0 ''root'' [XNode 11 2 ''Text'' [], XNode 12 2 ''Label'' []])),
           (''unsubscribe'', VFun 0), (''context'', VMap 1)]"

definition example_nodes :: node_world where
  "example_nodes =
     \<lparr>tree = XNode 0 0 ''root''
               [XNode 1 2 ''VGroup'' [XNode 2 1 ''::0'' [], XNode 3 2 ''Panel'' [], XNode 4 1 ''::5'' []]],
      maps = [[(''::0'', new_Record ''::0'' example_result (FromString ''>''))],
              [(''id1'', new_Record ''id1'' (VSignal 0) Absent)]],
      warnings = []\<rparr>"

text \<open>
  A second example, the tree of \<^verbatim>\<open>xml`<V>${A}${B}</V>`\<close> where \<open>A\<close> is the result of
  \<^verbatim>\<open>xml`<T x="${1}" y="${2}"></T>`\<close> and \<open>B\<close> the result of \<^verbatim>\<open>xml`<U></U>`\<close>. The record database
  of \<open>A\<close> is the one that the stream builder and attribute interpolation leave for its
  two values and its two attributes; that of \<open>B\<close> is empty.
\<close>

definition first_result :: jsval where
  "first_result =
     VObj [(''root'', VNode (XNode 10 0 ''root'' [XNode 11 2 ''T'' []])),
           (''unsubscribe'', VFun 0), (''context'', VMap 1)]"

definition second_result :: jsval where
  "second_result =
     VObj [(''root'', VNode (XNode 20 0 ''root'' [XNode 21 2 ''U'' []])),
           (''unsubscribe'', VFun 1), (''context'', VMap 2)]"

definition first_context :: database where
  "first_context =
     (case interpolateAttributes
             [[Some \<lparr>attr_name = ''x'', attr_value = VStr ''::0''\<rparr>,
               Some \<lparr>attr_name = ''y'', attr_value = VStr ''::1''\<rparr>]]
             \<lparr>id_counter = 1, signals = [],
              database = fst (createStream []
                [''<T x='' @ [CHR 0x22], [CHR 0x22] @ '' y='' @ [CHR 0x22], [CHR 0x22] @ ''></T>'']
                [VNum (Decimal False 1 0), VNum (Decimal False 2 0)])\<rparr>
      of Inl e \<Rightarrow> [] | Inr (nodes, w) \<Rightarrow> database w)"

definition sibling_nodes :: node_world where
  "sibling_nodes =
     \<lparr>tree = XNode 0 0 ''root''
               [XNode 1 2 ''V'' [XNode 2 1 ''::0'' [], XNode 3 1 ''::1'' []]],
      maps = [fst (createStream [] [''<V>'', [], ''</V>''] [first_result, second_result]),
              first_context, []],
      warnings = []\<rparr>"

section \<open>The cleanup callback\<close>

text \<open>
  Calling a cleanup handle \<^verbatim>\<open>() => this.#subscribers.delete(subscriber)\<close> of the Signal at
  an address.
\<close>

definition call_handle :: "callback Signal list \<Rightarrow> handle \<Rightarrow> callback Signal list" where
  "call_handle heap h =
     (case h of Unsubscribe a subscriber \<Rightarrow>
        if a < length heap then heap[a := unsubscribe_handle subscriber (heap ! a)] else heap)"

text \<open>
  The identifiers that the closure \<^verbatim>\<open>unsubscribe\<close> of \<^verbatim>\<open>xml\<close> can read: the parameters and
  constants of \<^verbatim>\<open>xml\<close>, then the imports, the constant and the functions of the module.
  The only one bound to a \<^verbatim>\<open>Map\<close> is \<^verbatim>\<open>context\<close>.
\<close>

datatype binding = Bound_Map database | Bound_other

definition xml_scope :: "database \<Rightarrow> (string \<times> binding) list" where
  "xml_scope context =
     [(''strings'', Bound_other), (''values'', Bound_other), (''context'', Bound_Map context),
      (''stream'', Bound_other), (''xml'', Bound_other), (''root'', Bound_other),
      (''unsubscribe'', Bound_other),
      (''Signal'', Bound_other), (''Record'', Bound_other), (''XMLParser'', Bound_other),
      (''parser'', Bound_other), (''createStream'', Bound_other),
      (''createIntermediateHtml'', Bound_other), (''parseElementAttributeValue'', Bound_other),
      (''interpolateAttributes'', Bound_other), (''interpolateNodes'', Bound_other),
      (''interpolateNodes3'', Bound_other)]"

text \<open>
  The body of the closure, in a scope: it reads the identifier \<^verbatim>\<open>database\<close>, takes the
  Records that are template variables and have a non-empty cleanup list, and calls their
  handles in order. An identifier that the scope does not bind throws a
  \<^verbatim>\<open>ReferenceError\<close>; a value with no method \<^verbatim>\<open>values\<close> throws a \<^verbatim>\<open>TypeError\<close>.
\<close>

definition unsubscribe_closure ::
  "(string \<times> binding) list \<Rightarrow> callback Signal list \<Rightarrow> error + callback Signal list" where
  "unsubscribe_closure scope heap =
     (case map_of scope ''database'' of
        None \<Rightarrow> Inl (ReferenceError ''database'')
      | Some Bound_other \<Rightarrow> Inl TypeError
      | Some (Bound_Map m) \<Rightarrow>
          Inr (foldl call_handle heap
                 (concat (map unsubscribe
                    (filter (\<lambda>r. length (unsubscribe r) > 0)
                       (filter isTemplateVariable (map snd m)))))))"

text \<open>The callback that \<^verbatim>\<open>xml\<close> returns, whose record database is \<open>context\<close>.\<close>

definition xml_unsubscribe :: "database \<Rightarrow> callback Signal list \<Rightarrow> error + callback Signal list" where
  "xml_unsubscribe context heap = unsubscribe_closure (xml_scope context) heap"

section \<open>Lemmas on the decoder\<close>

lemma split_each_not_Nil: "split_each sep s \<noteq> []"
  by (induction s) (auto split: list.splits)

lemma split_runs_not_Nil: "split_runs sep s \<noteq> []"
  by (cases s) (auto split: list.splits)

section \<open>Lemmas on the stream builder\<close>

lemma digit_char_inj: "a < 10 \<Longrightarrow> b < 10 \<Longrightarrow> digit_char a = digit_char b \<Longrightarrow> a = b"
proof -
  assume a: "a < 10" and b: "b < 10" and e: "digit_char a = digit_char b"
  from e have "(48 + a) mod 256 = (48 + b) mod 256"
    unfolding digit_char_def char_of_quasi_inj .
  moreover have "(48 + a) mod 256 = 48 + a" using a by (intro mod_less) linarith
  moreover have "(48 + b) mod 256 = 48 + b" using b by (intro mod_less) linarith
  ultimately show "a = b" by (simp only: add_left_cancel)
qed


lemma string_of_nat_not_Nil: "string_of_nat n \<noteq> []"
  by (subst string_of_nat.simps) simp

lemma string_of_nat_inj: "string_of_nat m = string_of_nat n \<Longrightarrow> m = n"
proof (induction m arbitrary: n rule: string_of_nat.induct)
  case (1 m)
  show ?case
  proof (cases "m < 10")
    case True
    show ?thesis
    proof (cases "n < 10")
      case n: True
      from "1.prems" True n have "digit_char m = digit_char n"
        by (simp add: string_of_nat.simps [of m] string_of_nat.simps [of n])
      then show ?thesis using True n by (rule_tac digit_char_inj)
    next
      case n: False
      from "1.prems" True n have "[digit_char m] = string_of_nat (n div 10) @ [digit_char (n mod 10)]"
        by (simp add: string_of_nat.simps [of m] string_of_nat.simps [of n])
      then show ?thesis using string_of_nat_not_Nil [of "n div 10"] by simp
    qed
  next
    case False
    show ?thesis
    proof (cases "n < 10")
      case n: True
      from "1.prems" False n have "string_of_nat (m div 10) @ [digit_char (m mod 10)] = [digit_char n]"
        by (simp add: string_of_nat.simps [of m] string_of_nat.simps [of n])
      then show ?thesis using string_of_nat_not_Nil [of "m div 10"] by simp
    next
      case n: False
      from "1.prems" False n
      have "string_of_nat (m div 10) @ [digit_char (m mod 10)]
            = string_of_nat (n div 10) @ [digit_char (n mod 10)]"
        by (simp add: string_of_nat.simps [of m] string_of_nat.simps [of n])
      then have a: "string_of_nat (m div 10) = string_of_nat (n div 10)"
        and b: "digit_char (m mod 10) = digit_char (n mod 10)" by simp_all
      from "1.IH" [OF False a] have "m div 10 = n div 10" .
      moreover from b have "m mod 10 = n mod 10" by (rule_tac digit_char_inj) simp_all
      ultimately show ?thesis by (metis div_mult_mod_eq)
    qed
  qed
qed

lemma decodeAttribute_placement:
  "(isAttributeValueAssignment (decodeAttribute s) \<and> \<not> isAttributeDomain (decodeAttribute s)
      \<and> \<not> isElementDomain (decodeAttribute s)) \<or>
   (\<not> isAttributeValueAssignment (decodeAttribute s) \<and> isAttributeDomain (decodeAttribute s)
      \<and> \<not> isElementDomain (decodeAttribute s)) \<or>
   (\<not> isAttributeValueAssignment (decodeAttribute s) \<and> \<not> isAttributeDomain (decodeAttribute s)
      \<and> isElementDomain (decodeAttribute s))"
  by (simp add: decodeAttribute_def attribute_intelligence_def no_intelligence_def)

lemma new_Record_sel [simp]:
  "record_id (new_Record i c a) = i"
  "content (new_Record i c a) = c"
  "unsubscribe (new_Record i c a) = []"
  "isTemplateVariable (new_Record i c a) = True"
  "isAttributeValueAssignment (new_Record i c (FromString s)) = isAttributeValueAssignment (decodeAttribute s)"
  "isAttributeDomain (new_Record i c (FromString s)) = isAttributeDomain (decodeAttribute s)"
  "isElementDomain (new_Record i c (FromString s)) = isElementDomain (decodeAttribute s)"
  by (simp_all add: new_Record_def intelligence.defs Record.defs)

lemma fragment_html_marker:
  "map_of context i = Some (new_Record i c (FromString s)) \<Longrightarrow>
   fragment_html context (Reference i) =
     Inr [if isAttributeValueAssignment (decodeAttribute s) then i
          else if isAttributeDomain (decodeAttribute s) then i @ [CHR ''='', CHR 0x22, CHR 0x22]
          else ''<!--'' @ i @ ''-->'']"
  using decodeAttribute_placement [of s] by auto

lemma Map_set_fresh: "k \<notin> fst ` set m \<Longrightarrow> Map_set k r m = m @ [(k, r)]"
  unfolding Map_set_def by (induction m) auto

lemma recordId_inj: "recordId i = recordId j \<Longrightarrow> i = j"
  by (simp add: recordId_def string_of_nat_inj)


lemma references_simps [simp]:
  "references [] = []"
  "references (TemplateChunk s # es) = references es"
  "references (Reference i # es) = i # references es"
  "references (xs @ ys) = references xs @ references ys"
  by (simp_all add: references_def)

lemma createStream_loop_context:
  "fst ` set ctx \<subseteq> recordId ` {..<k} \<Longrightarrow>
   fst (createStream_loop values k strs (ctx, stream)) =
     ctx @ map (slot values) (filter (\<lambda>p. value_at values (fst p) \<noteq> VUndefined) (enumerate k strs))"
proof (induction strs arbitrary: k ctx stream)
  case Nil
  then show ?case by simp
next
  case (Cons s strs)
  have en: "enumerate k (s # strs) = (k, s) # enumerate (Suc k) strs" by simp
  show ?case
  proof (cases "value_at values k = VUndefined")
    case True
    have "fst ` set ctx \<subseteq> recordId ` {..<Suc k}" using Cons.prems by auto
    from Cons.IH [OF this] True show ?thesis unfolding en by simp
  next
    case False
    have fresh: "recordId k \<notin> fst ` set ctx"
    proof
      assume "recordId k \<in> fst ` set ctx"
      with Cons.prems have "recordId k \<in> recordId ` {..<k}" by blast
      then obtain j where "j < k" "recordId k = recordId j" by auto
      then show False using recordId_inj by blast
    qed
    have step: "createStream_loop values k (s # strs) (ctx, stream) =
      createStream_loop values (Suc k) strs
        (ctx @ [slot values (k, s)], stream @ [TemplateChunk s, Reference (recordId k)])"
      using False Map_set_fresh [OF fresh] by (simp add: slot_def recordId_def)
    have "fst ` set (ctx @ [slot values (k, s)]) \<subseteq> recordId ` {..<Suc k}"
      using Cons.prems by (auto simp: slot_def)
    from Cons.IH [OF this] False show ?thesis unfolding en step by simp
  qed
qed

lemma createStream_loop_references:
  "references (snd (createStream_loop values k strs (ctx, stream))) =
     references stream @ map (\<lambda>p. recordId (fst p)) (filter (\<lambda>p. value_at values (fst p) \<noteq> VUndefined) (enumerate k strs))"
proof (induction strs arbitrary: k ctx stream)
  case Nil
  then show ?case by simp
next
  case (Cons s strs)
  have en: "enumerate k (s # strs) = (k, s) # enumerate (Suc k) strs" by simp
  show ?case unfolding en
    by (simp add: Cons.IH recordId_def)
qed


lemma createStream_loop_length:
  "length (snd (createStream_loop values k strs (ctx, stream))) =
     length stream + length strs + length (filter (\<lambda>p. value_at values (fst p) \<noteq> VUndefined) (enumerate k strs))"
proof (induction strs arbitrary: k ctx stream)
  case Nil
  then show ?case by simp
next
  case (Cons s strs)
  have en: "enumerate k (s # strs) = (k, s) # enumerate (Suc k) strs" by simp
  show ?case unfolding en
    by (simp add: Cons.IH)
qed

lemma map_fst_defined:
  "map fst (filter (\<lambda>p. value_at values (fst p) \<noteq> VUndefined) (enumerate k strs)) =
   filter (\<lambda>i. value_at values i \<noteq> VUndefined) [k..<k + length strs]"
proof -
  have "map fst (filter ((\<lambda>i. value_at values i \<noteq> VUndefined) \<circ> fst) (enumerate k strs)) =
        filter (\<lambda>i. value_at values i \<noteq> VUndefined) (map fst (enumerate k strs))"
    by (simp only: filter_map)
  then show ?thesis by (simp add: comp_def)
qed

lemma createStream_context:
  "fst (createStream [] strings values) =
     map (slot values) (filter (\<lambda>p. value_at values (fst p) \<noteq> VUndefined) (enumerate 0 strings))"
  unfolding createStream_def using createStream_loop_context [of "[]" 0 "values" strings "[]"] by simp

lemma createStream_keys:
  "map fst (fst (createStream [] strings values)) = map recordId (defined_indices strings values)"
proof -
  have "map fst (fst (createStream [] strings values)) =
        map recordId (map fst (filter (\<lambda>p. value_at values (fst p) \<noteq> VUndefined) (enumerate 0 strings)))"
    unfolding createStream_context by (simp add: slot_def comp_def)
  then show ?thesis unfolding map_fst_defined defined_indices_def by simp
qed

lemma createStream_references:
  "references (snd (createStream [] strings values)) = map recordId (defined_indices strings values)"
proof -
  have "references (snd (createStream [] strings values)) =
        map recordId (map fst (filter (\<lambda>p. value_at values (fst p) \<noteq> VUndefined) (enumerate 0 strings)))"
    unfolding createStream_def createStream_loop_references by (simp add: comp_def)
  then show ?thesis unfolding map_fst_defined defined_indices_def by simp
qed

lemma distinct_recordIds: "distinct is \<Longrightarrow> distinct (map recordId is)"
  by (simp add: distinct_map inj_on_def) (blast dest: recordId_inj)

lemma distinct_defined_indices: "distinct (defined_indices strings values)"
  by (simp add: defined_indices_def)

lemma createStream_lookup:
  assumes "p \<in> set (filter (\<lambda>p. value_at values (fst p) \<noteq> VUndefined) (enumerate 0 strings))"
  shows "map_of (fst (createStream [] strings values)) (recordId (fst p)) = Some (snd (slot values p))"
proof -
  have d: "distinct (map fst (fst (createStream [] strings values)))"
    unfolding createStream_keys by (rule distinct_recordIds) (rule distinct_defined_indices)
  have "slot values p \<in> set (fst (createStream [] strings values))"
    unfolding createStream_context using assms by simp
  then have "(recordId (fst p), snd (slot values p)) \<in> set (fst (createStream [] strings values))"
    by (simp add: slot_def)
  with d show ?thesis by simp
qed

lemma createStream_loop_stream:
  "snd (createStream_loop values k strs (ctx, stream)) =
     stream @ concat (map (\<lambda>p. if value_at values (fst p) = VUndefined then [TemplateChunk (snd p)]
                               else [TemplateChunk (snd p), Reference (recordId (fst p))])
                        (enumerate k strs))"
proof (induction strs arbitrary: k ctx stream)
  case Nil
  then show ?case by simp
next
  case (Cons s strs)
  have en: "enumerate k (s # strs) = (k, s) # enumerate (Suc k) strs" by simp
  show ?case unfolding en
    by (simp add: Cons.IH recordId_def)
qed

lemma html_loop_pieces:
  "(\<And>e. e \<in> set stream \<Longrightarrow> fragment_html ctx e = Inr (f e)) \<Longrightarrow>
   createIntermediateHtml_loop ctx stream result = Inr (result @ concat (map f stream))"
proof (induction stream arbitrary: result)
  case Nil
  then show ?case by simp
next
  case (Cons e stream)
  have e: "fragment_html ctx e = Inr (f e)" by (rule Cons.prems) simp
  have "createIntermediateHtml_loop ctx stream (result @ f e)
          = Inr ((result @ f e) @ concat (map f stream))"
    by (rule Cons.IH) (rule Cons.prems, simp)
  then show ?case using e by simp
qed


lemma concat_map_concat_map:
  "concat (map f (concat (map g ps))) = concat (map (\<lambda>p. concat (map f (g p))) ps)"
  by (induction ps) simp_all

lemma createStream_stream:
  "snd (createStream [] strings values) =
     concat (map (\<lambda>p. if value_at values (fst p) = VUndefined then [TemplateChunk (snd p)]
                      else [TemplateChunk (snd p), Reference (recordId (fst p))])
               (enumerate 0 strings))"
  unfolding createStream_def createStream_loop_stream by simp

lemma createStream_html_pieces:
  "createIntermediateHtml_loop (fst (createStream [] strings values))
      (snd (createStream [] strings values)) [] =
   Inr (concat (map (\<lambda>p. if value_at values (fst p) = VUndefined then [snd p]
             else [snd p,
                   if isAttributeValueAssignment (decodeAttribute (snd p)) then recordId (fst p)
                   else if isAttributeDomain (decodeAttribute (snd p))
                   then recordId (fst p) @ [CHR ''='', CHR 0x22, CHR 0x22]
                   else ''<!--'' @ recordId (fst p) @ ''-->''])
          (enumerate 0 strings)))"
  (is "createIntermediateHtml_loop ?ctx ?stream [] = Inr (concat (map ?F (enumerate 0 strings)))")
proof -
  let ?g = "\<lambda>p. if value_at values (fst p) = VUndefined then [TemplateChunk (snd p)]
                 else [TemplateChunk (snd p), Reference (recordId (fst p))]"
  let ?f = "\<lambda>e. case fragment_html ?ctx e of Inl x \<Rightarrow> [] | Inr ps \<Rightarrow> ps"
  have stream: "?stream = concat (map ?g (enumerate 0 strings))"
    by (rule createStream_stream)
  have ref: "fragment_html ?ctx (Reference (recordId (fst p))) =
       Inr [if isAttributeValueAssignment (decodeAttribute (snd p)) then recordId (fst p)
            else if isAttributeDomain (decodeAttribute (snd p))
            then recordId (fst p) @ [CHR ''='', CHR 0x22, CHR 0x22]
            else ''<!--'' @ recordId (fst p) @ ''-->'']"
    if "p \<in> set (enumerate 0 strings)" "value_at values (fst p) \<noteq> VUndefined" for p
  proof -
    from that have "p \<in> set (filter (\<lambda>p. value_at values (fst p) \<noteq> VUndefined) (enumerate 0 strings))"
      by simp
    from createStream_lookup [OF this]
    have "map_of ?ctx (recordId (fst p)) =
            Some (new_Record (recordId (fst p)) (value_at values (fst p)) (FromString (snd p)))"
      by (simp add: slot_def)
    then show ?thesis by (rule fragment_html_marker)
  qed
  have each: "concat (map ?f (?g p)) = ?F p" if "p \<in> set (enumerate 0 strings)" for p
  proof (cases "value_at values (fst p) = VUndefined")
    case True
    then show ?thesis by simp
  next
    case False
    with ref [OF that] show ?thesis by simp
  qed
  have total: "fragment_html ?ctx e = Inr (?f e)" if "e \<in> set ?stream" for e
  proof -
    from that obtain p where p: "p \<in> set (enumerate 0 strings)" and e: "e \<in> set (?g p)"
      unfolding stream by auto
    show ?thesis
    proof (cases "value_at values (fst p) = VUndefined")
      case True
      with e show ?thesis by simp
    next
      case False
      with e have "e = TemplateChunk (snd p) \<or> e = Reference (recordId (fst p))" by simp
      then show ?thesis using ref [OF p False] by auto
    qed
  qed
  have "createIntermediateHtml_loop ?ctx ?stream [] = Inr ([] @ concat (map ?f ?stream))"
    by (rule html_loop_pieces) (rule total)
  also have "concat (map ?f ?stream) = concat (map (\<lambda>p. concat (map ?f (?g p))) (enumerate 0 strings))"
    unfolding stream by (rule concat_map_concat_map)
  also have "\<dots> = concat (map ?F (enumerate 0 strings))"
    by (rule arg_cong [where f = concat], rule map_cong [OF refl]) (rule each)
  finally show ?thesis by simp
qed


lemma count_defined:
  assumes "length values \<le> n"
  shows "length (filter (\<lambda>i. value_at values i \<noteq> VUndefined) [0..<n]) =
         length (filter (\<lambda>x. x \<noteq> VUndefined) values)"
proof -
  have split: "[0..<n] = [0..<length values] @ [length values..<n]"
    using assms by (metis le_add_diff_inverse upt_add_eq_append zero_le)
  have tail: "filter (\<lambda>i. value_at values i \<noteq> VUndefined) [length values..<n] = []"
    by (simp add: value_at_def filter_empty_conv)
  have "filter (\<lambda>x. x \<noteq> VUndefined) values
        = filter (\<lambda>x. x \<noteq> VUndefined) (map (\<lambda>i. values ! i) [0..<length values])"
    by (simp only: map_nth)
  also have "\<dots> = map (\<lambda>i. values ! i) (filter (\<lambda>i. values ! i \<noteq> VUndefined) [0..<length values])"
    by (simp add: filter_map comp_def)
  finally have "length (filter (\<lambda>x. x \<noteq> VUndefined) values)
     = length (filter (\<lambda>i. values ! i \<noteq> VUndefined) [0..<length values])" by simp
  also have "filter (\<lambda>i. values ! i \<noteq> VUndefined) [0..<length values]
     = filter (\<lambda>i. value_at values i \<noteq> VUndefined) [0..<length values]"
    by (rule filter_cong) (simp_all add: value_at_def)
  finally show ?thesis unfolding split by (simp add: tail)
qed


section \<open>Lemmas on the subscriber set\<close>

lemma Set_add_member: "x \<in> set (Set_add x xs)"
  by (simp add: Set_add_def)

lemma Set_add_keeps: "y \<in> set xs \<Longrightarrow> y \<in> set (Set_add x xs)"
  by (simp add: Set_add_def)

lemma Set_add_distinct: "distinct xs \<Longrightarrow> distinct (Set_add x xs)"
  by (simp add: Set_add_def)

lemma Set_delete_distinct: "distinct xs \<Longrightarrow> distinct (Set_delete x xs)"
  by (simp add: Set_delete_def distinct_removeAll)

section \<open>Lemmas on node interpolation\<close>

lemma map_of_Map_set: "map_of (Map_set k r m) = (map_of m)(k \<mapsto> r)"
  by (simp add: Map_set_def update_conv')

lemma map_of_merge_into:
  "distinct (map fst rc) \<Longrightarrow> map_of (merge_into m rc) = map_of m ++ map_of rc"
proof (induction rc arbitrary: m)
  case Nil
  then show ?case by (simp add: merge_into_def)
next
  case (Cons kv rc)
  have step: "merge_into m (kv # rc) = merge_into (Map_set (fst kv) (snd kv) m) rc"
    by (simp add: merge_into_def)
  have d: "distinct (map fst rc)" and fresh: "fst kv \<notin> dom (map_of rc)"
    using Cons.prems by (auto simp: dom_map_of_conv_image_fst)
  have "map_of (merge_into m (kv # rc)) = (map_of m)(fst kv \<mapsto> snd kv) ++ map_of rc"
    unfolding step Cons.IH [OF d] map_of_Map_set ..
  also have "\<dots> = map_of m ++ (map_of rc)(fst kv \<mapsto> snd kv)"
    using fresh by (auto simp: map_add_def fun_eq_iff split: option.splits)
  also have "(map_of rc)(fst kv \<mapsto> snd kv) = map_of (kv # rc)"
    by (cases kv) simp
  finally show ?case .
qed

lemma nid_remove [simp]: "nid (remove m t) = nid t"
  by (cases t) simp

lemma nid_after [simp]: "nid (after m new t) = nid t"
  by (cases t) simp

lemma remove_absent: "m \<notin> set (descendant_ids (remove m t))"
proof (induction t)
  case (XNode i ty c ch)
  then show ?case by auto
qed

lemma remove_descendants: "set (descendant_ids (remove k t)) \<subseteq> set (descendant_ids t)"
proof (induction t)
  case (XNode i ty c ch)
  then show ?case by fastforce
qed

lemma remove_all_descendants: "set (descendant_ids (remove_all cs t)) \<subseteq> set (descendant_ids t)"
proof (induction cs arbitrary: t)
  case Nil
  then show ?case by (simp add: remove_all_def)
next
  case (Cons c cs)
  have "remove_all (c # cs) t = remove_all cs (remove (nid c) t)"
    by (simp add: remove_all_def)
  then show ?case using Cons.IH [of "remove (nid c) t"] remove_descendants [of "nid c" t] by auto
qed

lemma remove_all_absent: "c \<in> set cs \<Longrightarrow> nid c \<notin> set (descendant_ids (remove_all cs t))"
proof (induction cs arbitrary: t)
  case Nil
  then show ?case by simp
next
  case (Cons x cs)
  have step: "remove_all (x # cs) t = remove_all cs (remove (nid x) t)"
    by (simp add: remove_all_def)
  show ?case
  proof (cases "c = x")
    case True
    then show ?thesis
      unfolding step using remove_all_descendants [of cs "remove (nid x) t"] remove_absent [of "nid x" t]
      by auto
  next
    case False
    with Cons.prems have "c \<in> set cs" by simp
    then show ?thesis unfolding step by (rule Cons.IH)
  qed
qed

lemma remove_unchanged: "m \<notin> set (descendant_ids t) \<Longrightarrow> remove m t = t"
proof (induction t)
  case (XNode i ty c ch)
  have keep: "filter (\<lambda>x. nid x \<noteq> m) ch = ch"
    using XNode.prems by (auto simp: filter_id_conv)
  have "map (remove m) ch = map (\<lambda>x. x) ch"
  proof (rule map_cong [OF refl])
    fix x assume x: "x \<in> set ch"
    then have "m \<notin> set (descendant_ids x)" using XNode.prems by auto
    with x show "remove m x = x" by (rule XNode.IH)
  qed
  then show ?case by (simp add: keep)
qed

lemma remove_after:
  assumes "\<And>x. x \<in> set new \<Longrightarrow> nid x \<noteq> m \<and> m \<notin> set (descendant_ids x)"
  shows "remove m (after m new t) = replace_nodes (\<lambda>k. if k = m then Some new else None) t"
proof (induction t)
  case (XNode i ty c ch)
  have new_kept: "map (remove m) (filter (\<lambda>x. nid x \<noteq> m) new) = new"
  proof -
    have "filter (\<lambda>x. nid x \<noteq> m) new = new" using assms by (auto simp: filter_id_conv)
    moreover have "map (remove m) new = map (\<lambda>x. x) new"
      by (rule map_cong [OF refl]) (simp add: assms remove_unchanged)
    ultimately show ?thesis by simp
  qed
  have "map (remove m) (filter (\<lambda>x. nid x \<noteq> m)
          (concat (map (\<lambda>x. if nid x = m then after m new x # new else [after m new x]) ch)))
        = concat (map (\<lambda>x. case (\<lambda>k. if k = m then Some new else None) (nid x) of
                              None \<Rightarrow> [replace_nodes (\<lambda>k. if k = m then Some new else None) x]
                            | Some new \<Rightarrow> new) ch)"
    unfolding filter_concat map_concat map_map comp_def
  proof (rule arg_cong [where f = concat], rule map_cong [OF refl])
    fix x assume x: "x \<in> set ch"
    show "map (remove m) (filter (\<lambda>x. nid x \<noteq> m)
            (if nid x = m then after m new x # new else [after m new x]))
          = (case (\<lambda>k. if k = m then Some new else None) (nid x) of
               None \<Rightarrow> [replace_nodes (\<lambda>k. if k = m then Some new else None) x]
             | Some new \<Rightarrow> new)"
      using new_kept XNode.IH [OF x] by simp
  qed
  then show ?case by simp
qed


lemma import_marker_template_result:
  assumes "d < length (maps w)" and "a < length (maps w)" and "a \<noteq> d"
    and "map_of (maps w ! d) (ncontent c) = Some r"
    and "content r = VObj ps"
    and "map_of ps ''root'' = Some (VNode root)"
    and "map_of ps ''context'' = Some (VMap a)"
    and "distinct (map fst (maps w ! a))"
  shows "\<exists>w'. import_marker d c w = Inr w' \<and>
       map_of (maps w' ! d) = map_of (maps w ! d) ++ map_of (maps w ! a) \<and>
       maps w' ! a = [] \<and>
       tree w' = (if nchildren root = [] then tree w
                  else after (nid c) (nchildren root) (tree w)) \<and>
       warnings w' = (if nchildren root = [] then warnings w @ [nid c] else warnings w)"
proof -
  let ?merged = "(maps w)[d := merge_into (maps w ! d) (maps w ! a)]"
  let ?cleared = "?merged[a := []]"
  let ?w' = "if nchildren root = []
             then w\<lparr>maps := ?cleared, warnings := warnings w @ [nid c]\<rparr>
             else w\<lparr>tree := after (nid c) (nchildren root) (tree w), maps := ?cleared\<rparr>"
  have run: "import_marker d c w = Inr ?w'"
    using assms by (simp add: import_marker_def Let_def)
  have m: "maps ?w' = ?cleared" by simp
  have at_d: "maps ?w' ! d = merge_into (maps w ! d) (maps w ! a)"
    unfolding m using assms by simp
  have at_a: "maps ?w' ! a = []"
    unfolding m using assms by simp
  have merged: "map_of (maps ?w' ! d) = map_of (maps w ! d) ++ map_of (maps w ! a)"
    unfolding at_d using assms by (simp add: map_of_merge_into)
  have "tree ?w' = (if nchildren root = [] then tree w
                    else after (nid c) (nchildren root) (tree w))"
    and "warnings ?w' = (if nchildren root = [] then warnings w @ [nid c] else warnings w)"
    by simp_all
  with run merged at_a show ?thesis by blast
qed

lemma import_marker_missing_record:
  "d < length (maps w) \<Longrightarrow> map_of (maps w ! d) (ncontent c) = None \<Longrightarrow>
   import_marker d c w = Inr (w\<lparr>warnings := warnings w @ [nid c]\<rparr>)"
  by (simp add: import_marker_def)

lemma interpolateNodes_markers_removed:
  assumes run: "interpolateNodes d w = Inr w2" and n: "n \<in> set (commentNodes (tree w))"
  shows "nid n \<notin> set (descendant_ids (tree w2))"
proof -
  from n have ne: "commentNodes (tree w) \<noteq> []" by auto
  obtain w' where iw: "import_markers d (commentNodes (tree w)) w = Inr w'"
    using run ne by (cases "import_markers d (commentNodes (tree w)) w")
      (simp_all add: interpolateNodes_def)
  with run ne have "w2 = w'\<lparr>tree := remove_all (commentNodes (tree w)) (tree w')\<rparr>"
    by (simp add: interpolateNodes_def)
  then have "tree w2 = remove_all (commentNodes (tree w)) (tree w')" by simp
  then show ?thesis using remove_all_absent [OF n] by simp
qed


section \<open>Lemmas on attribute interpolation with direct markers\<close>

lemma of_char_digit_char: "d < 10 \<Longrightarrow> of_char (digit_char d) = (48 + d :: nat)"
proof -
  assume "d < 10"
  then have "(48 + d) mod 256 = 48 + d" by (intro mod_less) linarith
  then show ?thesis unfolding digit_char_def of_char_of .
qed

lemma digit_char_not_dash: "d < 10 \<Longrightarrow> digit_char d \<noteq> CHR ''-''"
proof
  assume d: "d < 10" and e: "digit_char d = CHR ''-''"
  have "of_char (CHR ''-'') = (45::nat)" by simp
  with e of_char_digit_char [OF d] have "48 + d = 45" by simp
  then show False by simp
qed

lemma string_of_nat_no_dash: "CHR ''-'' \<notin> set (string_of_nat n)"
proof (induction n rule: string_of_nat.induct)
  case (1 n)
  show ?case
  proof (cases "n < 10")
    case True
    then have "string_of_nat n = [digit_char n]" by (simp add: string_of_nat.simps [of n])
    then show ?thesis using digit_char_not_dash [OF True] by auto
  next
    case False
    then have "string_of_nat n = string_of_nat (n div 10) @ [digit_char (n mod 10)]"
      by (simp add: string_of_nat.simps [of n])
    moreover have "digit_char (n mod 10) \<noteq> CHR ''-''" by (rule digit_char_not_dash) simp
    ultimately show ?thesis using "1.IH" [OF False] by auto
  qed
qed

lemma recordId_no_dash: "CHR ''-'' \<notin> set (recordId i)"
  using string_of_nat_no_dash [of i] by (simp add: recordId_def)

lemma startsWith_recordId: "startsWith (recordId i) ''::''"
  by (simp add: startsWith_def recordId_def)

lemma spread_records_lookup:
  "CHR ''-'' \<notin> set k \<Longrightarrow> map_of (snd (spread_records name ps st)) k = map_of (snd st) k"
proof (induction ps arbitrary: st)
  case Nil
  then show ?case by simp
next
  case (Cons p ps)
  obtain field x where p: "p = (field, x)" by (cases p)
  have "k \<noteq> name @ ''-'' @ field" using Cons.prems by auto
  then show ?case unfolding p using Cons.IH [OF Cons.prems]
    by (simp add: map_of_Map_set)
qed

lemma collect_spread_lookup:
  "CHR ''-'' \<notin> set k \<Longrightarrow> map_of (snd (snd (collect_spread index a st))) k = map_of (snd (snd st)) k"
  by (cases st) (simp add: collect_spread_def spread_records_lookup split: option.splits)

lemma collect_spread_length:
  "length (fst (collect_spread index a st)) = length (fst st)"
  by (cases st) (simp add: collect_spread_def split: option.splits)

lemma collect_attributes_lookup:
  "CHR ''-'' \<notin> set k \<Longrightarrow>
   map_of (snd (snd (fst (collect_attributes index es st)))) k = map_of (snd (snd st)) k"
proof (induction index es st rule: collect_attributes.induct)
  case (1 index st)
  then show ?case by simp
next
  case (2 index rest st)
  then show ?case by simp
next
  case (3 index a rest st)
  note sp = collect_spread_lookup [OF "3.prems", of index a st]
  show ?case
  proof (cases "attr_value a")
    case (VStr ref)
    show ?thesis
    proof (cases "startsWith ref ''::''")
      case True
      show ?thesis
      proof (cases "map_of (snd (snd (collect_spread index a st))) ref")
        case None
        then show ?thesis using VStr True sp by simp
      next
        case (Some payload)
        from "3.IH"(1) [OF VStr True Some "3.prems"] show ?thesis
          using VStr True Some sp by simp
      qed
    next
      case False
      from "3.IH"(2) [OF VStr False "3.prems"] show ?thesis
        using VStr False sp by simp
    qed
  qed (simp_all add: sp)
qed

lemma collect_attributes_length:
  "length (fst (fst (collect_attributes index es st))) = length (fst st)"
proof (induction index es st rule: collect_attributes.induct)
  case (1 index st)
  then show ?case by simp
next
  case (2 index rest st)
  then show ?case by simp
next
  case (3 index a rest st)
  note sp = collect_spread_length [of index a st]
  show ?case
  proof (cases "attr_value a")
    case (VStr ref)
    show ?thesis
    proof (cases "startsWith ref ''::''")
      case True
      show ?thesis
      proof (cases "map_of (snd (snd (collect_spread index a st))) ref")
        case None
        then show ?thesis using VStr True sp by simp
      next
        case (Some payload)
        from "3.IH"(1) [OF VStr True Some] show ?thesis
          using VStr True Some sp by simp
      qed
    next
      case False
      from "3.IH"(2) [OF VStr False] show ?thesis
        using VStr False sp by simp
    qed
  qed (simp_all add: sp)
qed

lemma collect_attributes_fatal:
  "Some a \<in> set es \<Longrightarrow> attr_value a = VStr mk \<Longrightarrow> startsWith mk ''::'' \<Longrightarrow>
   CHR ''-'' \<notin> set mk \<Longrightarrow> map_of (snd (snd st)) mk = None \<Longrightarrow>
   snd (collect_attributes index es st) \<noteq> None"
proof (induction index es st rule: collect_attributes.induct)
  case (1 index st)
  then show ?case by simp
next
  case (2 index rest st)
  then show ?case by simp
next
  case (3 index x rest st)
  have absent: "map_of (snd (snd (collect_spread index x st))) mk = None"
    using collect_spread_lookup [OF "3.prems"(4), of index x st] "3.prems"(5) by simp
  show ?case
  proof (cases "attr_value x")
    case (VStr ref)
    show ?thesis
    proof (cases "startsWith ref ''::''")
      case True
      show ?thesis
      proof (cases "map_of (snd (snd (collect_spread index x st))) ref")
        case None
        then show ?thesis using VStr True by simp
      next
        case (Some payload)
        with absent have "ref \<noteq> mk" by auto
        with VStr "3.prems"(1,2) have in_rest: "Some a \<in> set rest" by auto
        have "snd (collect_attributes (Suc index) rest
                ((fst (collect_spread index x st))[index := None],
                 fst (snd (collect_spread index x st)) @ [(attr_name x, payload)],
                 snd (snd (collect_spread index x st)))) \<noteq> None"
          by (rule "3.IH"(1) [OF VStr True Some in_rest "3.prems"(2,3,4)]) (simp add: absent)
        then show ?thesis using VStr True Some by simp
      qed
    next
      case False
      with VStr "3.prems"(1,2,3) have in_rest: "Some a \<in> set rest" by auto
      have "snd (collect_attributes (Suc index) rest (collect_spread index x st)) \<noteq> None"
        by (rule "3.IH"(2) [OF VStr False in_rest "3.prems"(2,3,4) absent])
      then show ?thesis using VStr False by simp
    qed
  qed simp_all
qed

lemma collect_attributes_append:
  "collect_attributes index pre st = (st1, None) \<Longrightarrow>
   collect_attributes index (pre @ es) st = collect_attributes (index + length pre) es st1"
proof (induction index pre st rule: collect_attributes.induct)
  case (1 index st)
  then show ?case by simp
next
  case (2 index rest st)
  then show ?case by simp
next
  case (3 index x rest st)
  show ?case
  proof (cases "attr_value x")
    case (VStr ref)
    show ?thesis
    proof (cases "startsWith ref ''::''")
      case True
      show ?thesis
      proof (cases "map_of (snd (snd (collect_spread index x st))) ref")
        case None
        then show ?thesis using VStr True "3.prems" by simp
      next
        case (Some payload)
        from "3.prems" VStr True Some
        have "collect_attributes (Suc index) rest
                ((fst (collect_spread index x st))[index := None],
                 fst (snd (collect_spread index x st)) @ [(attr_name x, payload)],
                 snd (snd (collect_spread index x st))) = (st1, None)" by simp
        from "3.IH"(1) [OF VStr True Some this] show ?thesis
          using VStr True Some by simp
      qed
    next
      case False
      from "3.prems" VStr False
      have "collect_attributes (Suc index) rest (collect_spread index x st) = (st1, None)" by simp
      from "3.IH"(2) [OF VStr False this] show ?thesis
        using VStr False by simp
    qed
  qed (use "3.prems" in simp_all)
qed

lemma collect_attributes_first:
  assumes pre: "collect_attributes index pre st = (st1, None)"
    and a: "attr_value a = VStr mk" "startsWith mk ''::''" "CHR ''-'' \<notin> set mk"
    and absent: "map_of (snd (snd st)) mk = None"
  shows "snd (collect_attributes index (pre @ Some a # post) st) = Some (LookupError mk)"
proof -
  have "map_of (snd (snd (fst (collect_attributes index pre st)))) mk = None"
    using collect_attributes_lookup [OF a(3), of index pre st] absent by simp
  then have "map_of (snd (snd st1)) mk = None" using pre by simp
  then have "map_of (snd (snd (collect_spread (index + length pre) a st1))) mk = None"
    using collect_spread_lookup [OF a(3), of "index + length pre" a st1] by simp
  then have "snd (collect_attributes (index + length pre) (Some a # post) st1) = Some (LookupError mk)"
    using a by simp
  then show ?thesis unfolding collect_attributes_append [OF pre] .
qed

lemma walk_lookup:
  "CHR ''-'' \<notin> set k \<Longrightarrow>
   map_of (fst (snd (fst (interpolateAttributes2_walk apply node nodes st)))) k = map_of (fst st) k"
proof (induction nodes arbitrary: node st)
  case Nil
  then show ?case by simp
next
  case (Cons attrs nodes)
  obtain attrs' toProcess db' r
    where c: "collect_attributes 0 attrs (attrs, [], fst st) = ((attrs', toProcess, db'), r)"
    by (metis prod_cases3 surj_pair)
  have db': "map_of db' k = map_of (fst st) k"
    using collect_attributes_lookup [OF Cons.prems, of 0 attrs "(attrs, [], fst st)"] c by simp
  show ?case
  proof (cases r)
    case (Some e)
    then show ?thesis using c db' by simp
  next
    case None
    obtain b' r2 where p: "process_attributes apply node toProcess (snd st) = (b', r2)"
      by (cases "process_attributes apply node toProcess (snd st)")
    show ?thesis
    proof (cases r2)
      case (Some e)
      then show ?thesis using c None p db' by simp
    next
      case n2: None
      obtain nodes' st' r3
        where w: "interpolateAttributes2_walk apply (Suc node) nodes (db', b') = ((nodes', st'), r3)"
        by (metis surj_pair)
      from Cons.IH [OF Cons.prems, of "Suc node" "(db', b')"] w
      have "map_of (fst st') k = map_of db' k" by simp
      then show ?thesis using c None p n2 w db' by simp
    qed
  qed
qed

lemma walk_fatal:
  "attrs \<in> set nodes \<Longrightarrow> Some a \<in> set attrs \<Longrightarrow> attr_value a = VStr mk \<Longrightarrow>
   startsWith mk ''::'' \<Longrightarrow> CHR ''-'' \<notin> set mk \<Longrightarrow> map_of (fst st) mk = None \<Longrightarrow>
   snd (interpolateAttributes2_walk apply node nodes st) \<noteq> None"
proof (induction nodes arbitrary: node st)
  case Nil
  then show ?case by simp
next
  case (Cons x nodes)
  obtain attrs' toProcess db' r
    where c: "collect_attributes 0 x (x, [], fst st) = ((attrs', toProcess, db'), r)"
    by (metis prod_cases3 surj_pair)
  have db': "map_of db' mk = None"
    using collect_attributes_lookup [OF Cons.prems(5), of 0 x "(x, [], fst st)"] c Cons.prems(6)
    by simp
  show ?case
  proof (cases r)
    case (Some e)
    then show ?thesis using c by simp
  next
    case None
    have "x \<noteq> attrs"
    proof
      assume "x = attrs"
      then have "snd (collect_attributes 0 x (x, [], fst st)) \<noteq> None"
        using collect_attributes_fatal [OF Cons.prems(2,3,4,5), of "(x, [], fst st)" 0] Cons.prems(6)
        by simp
      with c None show False by simp
    qed
    with Cons.prems(1) have in_rest: "attrs \<in> set nodes" by simp
    obtain b' r2 where p: "process_attributes apply node toProcess (snd st) = (b', r2)"
      by (cases "process_attributes apply node toProcess (snd st)")
    show ?thesis
    proof (cases r2)
      case (Some e)
      then show ?thesis using c None p by simp
    next
      case n2: None
      obtain nodes' st' r3
        where w: "interpolateAttributes2_walk apply (Suc node) nodes (db', b') = ((nodes', st'), r3)"
        by (metis surj_pair)
      have "snd (interpolateAttributes2_walk apply (Suc node) nodes (db', b')) \<noteq> None"
        by (rule Cons.IH [OF in_rest Cons.prems(2,3,4,5)]) (simp add: db')
      with w have "r3 \<noteq> None" by simp
      then show ?thesis using c None p n2 w by simp
    qed
  qed
qed

lemma walk_append:
  "interpolateAttributes2_walk apply node xs st = ((xs', st'), None) \<Longrightarrow>
   interpolateAttributes2_walk apply node (xs @ ys) st =
     (case interpolateAttributes2_walk apply (node + length xs) ys st' of
        ((ys', st''), r) \<Rightarrow> ((xs' @ ys', st''), r))"
proof (induction xs arbitrary: node st xs')
  case Nil
  then show ?case by (simp split: prod.splits)
next
  case (Cons x xs)
  obtain attrs' toProcess db' r
    where c: "collect_attributes 0 x (x, [], fst st) = ((attrs', toProcess, db'), r)"
    by (metis prod_cases3 surj_pair)
  from Cons.prems c have r: "r = None" by (cases r) simp_all
  obtain b' r2 where p: "process_attributes apply node toProcess (snd st) = (b', r2)"
    by (cases "process_attributes apply node toProcess (snd st)")
  from Cons.prems c r p have r2: "r2 = None" by (cases r2) simp_all
  obtain nodes' st1 r3
    where w: "interpolateAttributes2_walk apply (Suc node) xs (db', b') = ((nodes', st1), r3)"
    by (metis surj_pair)
  from Cons.prems c r p r2 w have eqs: "xs' = attrs' # nodes'" "st' = st1" "r3 = None" by simp_all
  from w eqs have w': "interpolateAttributes2_walk apply (Suc node) xs (db', b') = ((nodes', st'), None)"
    by simp
  from Cons.IH [OF w'] show ?case
    using c r p r2 eqs by (simp split: prod.splits)
qed

lemma walk_throws_in_collection:
  "collect_attributes 0 attrs (attrs, [], fst st) = ((attrs', toProcess, db'), Some e) \<Longrightarrow>
   interpolateAttributes2_walk apply node (attrs # later) st = ((attrs' # later, db', snd st), Some e)"
  by simp


section \<open>Claims\<close>

text \<open>
  Claim C3. For literal segments \<open>strings\<close> and values \<open>values\<close> (no more values than
  segments), the intermediate markup that \<^verbatim>\<open>createIntermediateHtml\<close> returns for the stream and
  the database of \<^verbatim>\<open>createStream\<close> is the segments in order, each one followed by exactly
  one marker when the value at its index is defined and by nothing when it is
  \<^verbatim>\<open>undefined\<close>; the marker of index \<open>i\<close> is \<^verbatim>\<open>::i\<close>, \<^verbatim>\<open>::i=""\<close> or \<^verbatim>\<open><!--::i-->\<close>, as the
  segment in front of it is decoded. The stream holds one reference and the database
  one Record, under the id \<^verbatim>\<open>"::" + i\<close> and with the value as content, for each index \<open>i\<close>
  at which the value is defined, in order and under distinct ids, so the markers, the
  references and the Records are as many as the defined values; an index whose value is
  \<^verbatim>\<open>undefined\<close> has no Record and no reference.
\<close>

theorem createStream_one_marker_per_defined_value:
  assumes "length values \<le> length strings"
  shows "(case createStream [] strings values of (ctx, stream) \<Rightarrow>
           createIntermediateHtml stream ctx =
             Inr (concat (concat (map (\<lambda>(i, s).
                    if value_at values i = VUndefined then [s]
                    else [s,
                          if isAttributeValueAssignment (decodeAttribute s) then recordId i
                          else if isAttributeDomain (decodeAttribute s)
                          then recordId i @ [CHR ''='', CHR 0x22, CHR 0x22]
                          else ''<!--'' @ recordId i @ ''-->''])
                  (enumerate 0 strings)))) \<and>
           map fst ctx = map recordId (defined_indices strings values) \<and>
           createIntermediateHtml_loop ctx stream [] =
             Inr (concat (map (\<lambda>(i, s).
                    if value_at values i = VUndefined then [s]
                    else [s,
                          if isAttributeValueAssignment (decodeAttribute s) then recordId i
                          else if isAttributeDomain (decodeAttribute s)
                          then recordId i @ [CHR ''='', CHR 0x22, CHR 0x22]
                          else ''<!--'' @ recordId i @ ''-->''])
                  (enumerate 0 strings))) \<and>
           stream = concat (map (\<lambda>(i, s).
                      if value_at values i = VUndefined then [TemplateChunk s]
                      else [TemplateChunk s, Reference (recordId i)])
                    (enumerate 0 strings)) \<and>
           ctx = map (\<lambda>(i, s). (recordId i,
                        new_Record (recordId i) (value_at values i) (FromString s)))
                   (filter (\<lambda>(i, s). value_at values i \<noteq> VUndefined) (enumerate 0 strings)) \<and>
           length (filter (\<lambda>(i, s). value_at values i \<noteq> VUndefined) (enumerate 0 strings))
             = length (filter (\<lambda>x. x \<noteq> VUndefined) values) \<and>
           references stream = map recordId (defined_indices strings values) \<and>
           distinct (map fst ctx) \<and>
           length ctx = length (filter (\<lambda>x. x \<noteq> VUndefined) values) \<and>
           length (references stream) = length (filter (\<lambda>x. x \<noteq> VUndefined) values) \<and>
           (\<forall>i < length strings. value_at values i = VUndefined \<longrightarrow>
              map_of ctx (recordId i) = None \<and> recordId i \<notin> set (references stream)))"
proof -
  obtain ctx stream where cs: "createStream [] strings values = (ctx, stream)"
    by (cases "createStream [] strings values")
  have ctx: "ctx = fst (createStream [] strings values)"
    and stream: "stream = snd (createStream [] strings values)" by (simp_all add: cs)
  have refs: "references stream = map recordId (defined_indices strings values)"
    unfolding stream by (rule createStream_references)
  have keys: "map fst ctx = map recordId (defined_indices strings values)"
    unfolding ctx by (rule createStream_keys)
  have dist: "distinct (map fst ctx)"
    unfolding keys by (rule distinct_recordIds) (rule distinct_defined_indices)
  have count: "length (defined_indices strings values) = length (filter (\<lambda>x. x \<noteq> VUndefined) values)"
    unfolding defined_indices_def by (rule count_defined) (rule assms)
  have n_ctx: "length ctx = length (filter (\<lambda>x. x \<noteq> VUndefined) values)"
    using arg_cong [OF keys, of length] count by simp
  have n_refs: "length (references stream) = length (filter (\<lambda>x. x \<noteq> VUndefined) values)"
    using arg_cong [OF refs, of length] count by simp
  have n_defined: "length (filter (\<lambda>(i, s). value_at values i \<noteq> VUndefined) (enumerate 0 strings))
             = length (filter (\<lambda>x. x \<noteq> VUndefined) values)"
    using arg_cong [OF map_fst_defined [of "values" 0 strings], of length] count
    by (simp add: defined_indices_def split_def)
  have pieces: "createIntermediateHtml_loop ctx stream [] =
             Inr (concat (map (\<lambda>(i, s).
                    if value_at values i = VUndefined then [s]
                    else [s,
                          if isAttributeValueAssignment (decodeAttribute s) then recordId i
                          else if isAttributeDomain (decodeAttribute s)
                          then recordId i @ [CHR ''='', CHR 0x22, CHR 0x22]
                          else ''<!--'' @ recordId i @ ''-->''])
                  (enumerate 0 strings)))"
    unfolding ctx stream createStream_html_pieces by (simp only: split_def)
  have html: "createIntermediateHtml stream ctx =
             Inr (concat (concat (map (\<lambda>(i, s).
                    if value_at values i = VUndefined then [s]
                    else [s,
                          if isAttributeValueAssignment (decodeAttribute s) then recordId i
                          else if isAttributeDomain (decodeAttribute s)
                          then recordId i @ [CHR ''='', CHR 0x22, CHR 0x22]
                          else ''<!--'' @ recordId i @ ''-->''])
                  (enumerate 0 strings))))"
    unfolding createIntermediateHtml_def pieces by simp
  have str: "stream = concat (map (\<lambda>(i, s).
                      if value_at values i = VUndefined then [TemplateChunk s]
                      else [TemplateChunk s, Reference (recordId i)])
                    (enumerate 0 strings))"
    unfolding stream createStream_stream by (simp only: split_def)
  have db: "ctx = map (\<lambda>(i, s). (recordId i,
                        new_Record (recordId i) (value_at values i) (FromString s)))
                   (filter (\<lambda>(i, s). value_at values i \<noteq> VUndefined) (enumerate 0 strings))"
    unfolding ctx createStream_context slot_def by (simp only: split_def)
  have undef: "map_of ctx (recordId i) = None \<and> recordId i \<notin> set (references stream)"
    if "i < length strings" "value_at values i = VUndefined" for i
  proof -
    have "i \<notin> set (defined_indices strings values)"
      using that by (simp add: defined_indices_def)
    then have "recordId i \<notin> set (map recordId (defined_indices strings values))"
      using recordId_inj by auto
    then have "recordId i \<notin> set (references stream)" and "recordId i \<notin> fst ` set ctx"
      unfolding refs keys [symmetric] by simp_all
    then show ?thesis by (simp add: map_of_eq_None_iff)
  qed
  have undef_all: "\<forall>i < length strings. value_at values i = VUndefined \<longrightarrow>
              map_of ctx (recordId i) = None \<and> recordId i \<notin> set (references stream)"
    using undef by blast
  show ?thesis unfolding cs prod.case
    by (intro conjI html keys pieces str db n_defined refs dist n_ctx n_refs undef_all)
qed

theorem createStream_one_marker_per_defined_value_witness:
  "length [VObj [], VUndefined, VStr ''x''] \<le> length [''<div '', '' id='', '' class='', ''></div>''] \<and>
   createIntermediateHtml
     (snd (createStream [] [''<div '', '' id='', '' class='', ''></div>'']
             [VObj [], VUndefined, VStr ''x'']))
     (fst (createStream [] [''<div '', '' id='', '' class='', ''></div>'']
             [VObj [], VUndefined, VStr ''x'']))
     = Inr (''<div ::0='' @ [CHR 0x22, CHR 0x22] @ '' id= class=::2></div>'') \<and>
   map fst (fst (createStream [] [''<div '', '' id='', '' class='', ''></div>'']
                     [VObj [], VUndefined, VStr ''x''])) = [''::0'', ''::2'']"
proof -
  have h: "length [VObj [], VUndefined, VStr ''x''] \<le> length [''<div '', '' id='', '' class='', ''></div>'']"
    by simp
  obtain ctx stream
    where cs: "createStream [] [''<div '', '' id='', '' class='', ''></div>'']
                 [VObj [], VUndefined, VStr ''x''] = (ctx, stream)"
    by (cases "createStream [] [''<div '', '' id='', '' class='', ''></div>'']
                 [VObj [], VUndefined, VStr ''x'']")
  note t = createStream_one_marker_per_defined_value [OF h, unfolded cs prod.case]
  have rhs: "concat (concat (map (\<lambda>(i, s).
                    if value_at [VObj [], VUndefined, VStr ''x''] i = VUndefined then [s]
                    else [s,
                          if isAttributeValueAssignment (decodeAttribute s) then recordId i
                          else if isAttributeDomain (decodeAttribute s)
                          then recordId i @ [CHR ''='', CHR 0x22, CHR 0x22]
                          else ''<!--'' @ recordId i @ ''-->''])
                  (enumerate 0 [''<div '', '' id='', '' class='', ''></div>''])))
             = ''<div ::0='' @ [CHR 0x22, CHR 0x22] @ '' id= class=::2></div>''"
    by code_simp
  have d: "map recordId (defined_indices [''<div '', '' id='', '' class='', ''></div>'']
             [VObj [], VUndefined, VStr ''x'']) = [''::0'', ''::2'']"
    by code_simp
  have a: "createIntermediateHtml stream ctx
             = Inr (''<div ::0='' @ [CHR 0x22, CHR 0x22] @ '' id= class=::2></div>'')"
    using t [THEN conjunct1] unfolding rhs .
  have b: "map fst ctx = [''::0'', ''::2'']"
    using t [THEN conjunct2, THEN conjunct1] unfolding d .
  show ?thesis
    unfolding cs fst_conv snd_conv by (intro conjI h a b)
qed

text \<open>
  Claim C4. The three segments of the decoder's documentation are classified as
  documented. At the segment \<^verbatim>\<open><div><span \<close> the last token does not end with \<open>=\<close> and the
  last of the characters \<open><\<close> and \<open>>\<close> is \<open><\<close>, yet the decoder answers element-domain:
  \<^verbatim>\<open>split(/[^<>]/)\<close> keeps the adjacent brackets \<open>><\<close> as one token, which is not \<open><\<close>.
\<close>

theorem decodeAttribute_adjacent_tags:
  "decodeAttribute (''class='' @ [CHR 0x22]) = attribute_intelligence ''class'' \<and>
   decodeAttribute ''<div '' = no_intelligence\<lparr>isAttributeDomain := True\<rparr> \<and>
   decodeAttribute ''<div>'' = no_intelligence\<lparr>isElementDomain := True\<rparr> \<and>
   \<not> endsWith (normalizedCharacterTokens ''<div><span '') ''='' \<and>
   last_retained_bracket ''<div><span '' = Some CHR ''<'' \<and>
   bracketCycle ''<div><span '' = [''<'', ''><''] \<and>
   decodeAttribute ''<div><span '' = no_intelligence\<lparr>isElementDomain := True\<rparr> \<and>
   isAttributeDomain (decodeAttribute ''<div><span '') = False"
  by code_simp



text \<open>
  Claim C6. \<^verbatim>\<open>subscribe\<close> calls the new subscriber with the current value exactly when that
  value is neither \<^verbatim>\<open>null\<close> nor \<^verbatim>\<open>undefined\<close>, and registers it (after the others when it
  is new). The returned handle removes that subscriber and no other: a later assignment
  does not call it, and still calls every other subscriber.
\<close>

theorem Signal_subscribe:
  "(signal_value s \<noteq> VNull \<and> signal_value s \<noteq> VUndefined \<longrightarrow>
      snd (subscribe f s) = [(f, signal_value s)]) \<and>
   (signal_value s = VNull \<or> signal_value s = VUndefined \<longrightarrow> snd (subscribe f s) = []) \<and>
   f \<in> set (subscribers (fst (subscribe f s))) \<and>
   signal_value (fst (subscribe f s)) = signal_value s \<and>
   (f \<notin> set (subscribers s) \<longrightarrow> subscribers (fst (subscribe f s)) = subscribers s @ [f]) \<and>
   subscribers (unsubscribe_handle f (fst (subscribe f s))) = filter (\<lambda>g. g \<noteq> f) (subscribers s) \<and>
   f \<notin> fst ` set (snd (set_value loose x (unsubscribe_handle f (fst (subscribe f s))))) \<and>
   (\<forall>g \<in> set (subscribers s). g \<noteq> f \<longrightarrow>
      g \<in> set (subscribers (unsubscribe_handle f (fst (subscribe f s)))) \<and>
      (\<not> loose x (signal_value s) \<longrightarrow>
         (g, x) \<in> set (snd (set_value loose x (unsubscribe_handle f (fst (subscribe f s)))))))"
proof -
  have rm: "removeAll f (Set_add f xs) = filter (\<lambda>g. g \<noteq> f) xs" for xs
    by (simp add: Set_add_def removeAll_filter_not_eq) (metis (mono_tags, lifting) filter_cong)
  have subs: "subscribers (unsubscribe_handle f (fst (subscribe f s))) = filter (\<lambda>g. g \<noteq> f) (subscribers s)"
    by (simp add: unsubscribe_handle_def subscribe_def Set_delete_def rm)
  have val: "signal_value (unsubscribe_handle f (fst (subscribe f s))) = signal_value s"
    by (simp add: unsubscribe_handle_def subscribe_def)
  have calls: "fst ` set (snd (set_value loose x t)) \<subseteq> set (subscribers t)" for t :: "'a Signal"
    by (auto simp: set_value_def notify_def)
  have no_f: "f \<notin> fst ` set (snd (set_value loose x (unsubscribe_handle f (fst (subscribe f s)))))"
    using calls [of "unsubscribe_handle f (fst (subscribe f s))"] subs by auto
  have others: "g \<in> set (subscribers (unsubscribe_handle f (fst (subscribe f s)))) \<and>
      (\<not> loose x (signal_value s) \<longrightarrow>
         (g, x) \<in> set (snd (set_value loose x (unsubscribe_handle f (fst (subscribe f s))))))"
    if "g \<in> set (subscribers s)" "g \<noteq> f" for g
    using that subs val by (auto simp: set_value_def notify_def)
  show ?thesis
    using subs no_f others
    by (simp add: subscribe_def nullish_def Set_add_def)
qed

theorem Signal_subscribe_witness:
  "snd (subscribe (3::nat) (new_Signal ''id1'' (VNum (Decimal False 5 0))\<lparr>subscribers := [1, 2]\<rparr>))
     = [(3, VNum (Decimal False 5 0))] \<and>
   snd (subscribe (3::nat) (new_Signal ''id1'' VNull\<lparr>subscribers := [1, 2]\<rparr>)) = [] \<and>
   subscribers (fst (subscribe (3::nat) (new_Signal ''id1'' VNull\<lparr>subscribers := [1, 2]\<rparr>))) = [1, 2, 3] \<and>
   subscribers (unsubscribe_handle 3 (fst (subscribe (3::nat) (new_Signal ''id1'' VNull\<lparr>subscribers := [1, 2]\<rparr>)))) = [1, 2]"
  using Signal_subscribe [of "new_Signal ''id1'' (VNum (Decimal False 5 0))\<lparr>subscribers := [1, 2]\<rparr>" "3::nat" loose_text VNull]
        Signal_subscribe [of "new_Signal ''id1'' VNull\<lparr>subscribers := [1, 2]\<rparr>" "3::nat" loose_text VNull]
  by (simp add: new_Signal_def)

text \<open>
  Claim C10. The handle that \<^verbatim>\<open>subscribe\<close> returns removes its subscriber; calling it
  again, any number of times, leaves the Signal as the first call left it, and on a
  Signal that does not hold the subscriber it changes nothing.
\<close>

theorem unsubscribe_handle_idempotent:
  "f \<notin> set (subscribers (unsubscribe_handle f s)) \<and>
   (unsubscribe_handle f ^^ Suc n) s = unsubscribe_handle f s \<and>
   (f \<notin> set (subscribers s) \<longrightarrow> unsubscribe_handle f s = s)"
proof -
  have idem: "unsubscribe_handle f (unsubscribe_handle f t) = unsubscribe_handle f t" for t :: "'a Signal"
    by (simp add: unsubscribe_handle_def Set_delete_def)
  have "(unsubscribe_handle f ^^ Suc n) s = unsubscribe_handle f s"
  proof (induction n)
    case 0
    show ?case by simp
  next
    case (Suc n)
    have "(unsubscribe_handle f ^^ Suc (Suc n)) s = unsubscribe_handle f ((unsubscribe_handle f ^^ Suc n) s)"
      by simp
    also have "\<dots> = unsubscribe_handle f (unsubscribe_handle f s)" by (simp only: Suc.IH)
    finally show ?case by (simp only: idem)
  qed
  then show ?thesis
    by (simp add: unsubscribe_handle_def Set_delete_def)
qed

theorem unsubscribe_handle_idempotent_witness:
  "(2::nat) \<notin> set (subscribers (unsubscribe_handle 2 (new_Signal ''id1'' VNull\<lparr>subscribers := [1, 2, 3]\<rparr>))) \<and>
   (unsubscribe_handle (2::nat) ^^ Suc 1) (new_Signal ''id1'' VNull\<lparr>subscribers := [1, 2, 3]\<rparr>)
     = new_Signal ''id1'' VNull\<lparr>subscribers := [1, 3]\<rparr>"
  using unsubscribe_handle_idempotent [of "2::nat" "new_Signal ''id1'' VNull\<lparr>subscribers := [1, 2, 3]\<rparr>" 1]
  by (simp add: unsubscribe_handle_def Set_delete_def new_Signal_def)



text \<open>
  Claim C1, at any template: the cleanup callback that \<^verbatim>\<open>xml\<close> returns reads the
  identifier \<^verbatim>\<open>database\<close>, which neither \<^verbatim>\<open>xml\<close> (whose Map is \<^verbatim>\<open>context\<close>) nor the module
  binds. Every call of it throws, whatever the Records hold, and calls no handle.
\<close>

theorem xml_unsubscribe_throws:
  "xml_unsubscribe ctx heap = Inl (ReferenceError ''database'')"
  by (simp add: xml_unsubscribe_def unsubscribe_closure_def xml_scope_def)

text \<open>
  Claim C7, at the node of
  \<^verbatim>\<open><Panel ${{a:"1", b:"2"}} title="x<y" ${{c:"3"}}>\<close>. Both values are placed in the
  attribute domain, so the node has the attributes \<open>::0\<close>, \<open>title\<close>, \<open>::1\<close>. The positions
  in \<open>newAttributes\<close> are counted in the array as it was before any insertion: the
  attribute \<open>c\<close> of the second marker is inserted at index 3, which after the two
  insertions for the first marker is in front of \<open>title\<close>, and not after the slot that the
  second marker left. With the single marker of \<^verbatim>\<open><Panel ${{color:"red", width:200}} caption="Foo">\<close>
  the attributes \<open>color\<close> and \<open>width\<close> follow the slot of the marker, in that order.
\<close>

theorem interpolateAttributes_second_spread_misplaced:
  "(case interpolateAttributes
      [[Some \<lparr>attr_name = ''::0'', attr_value = VStr []\<rparr>,
        Some \<lparr>attr_name = ''caption'', attr_value = VStr ''Foo''\<rparr>]]
      \<lparr>id_counter = 1, signals = [],
       database = fst (createStream []
         [''<Panel '', '' caption='' @ [CHR 0x22] @ ''Foo'' @ [CHR 0x22] @ ''>'']
         [VObj [(''color'', VStr ''red''), (''width'', VNum (Decimal False 200 0))]])\<rparr>
    of Inl e \<Rightarrow> []
     | Inr (nodes, w) \<Rightarrow> map (map (map_option attr_name)) nodes)
   = [[None, Some ''color'', Some ''width'', Some ''caption'']] \<and>
   createIntermediateHtml
     (snd (createStream []
        [''<Panel '', '' title='' @ [CHR 0x22] @ ''x<y'' @ [CHR 0x22] @ '' '', ''>'']
        [VObj [(''a'', VStr ''1''), (''b'', VStr ''2'')], VObj [(''c'', VStr ''3'')]]))
     (fst (createStream []
        [''<Panel '', '' title='' @ [CHR 0x22] @ ''x<y'' @ [CHR 0x22] @ '' '', ''>'']
        [VObj [(''a'', VStr ''1''), (''b'', VStr ''2'')], VObj [(''c'', VStr ''3'')]]))
   = Inr (''<Panel ::0='' @ [CHR 0x22, CHR 0x22] @ '' title='' @ [CHR 0x22] @ ''x<y''
            @ [CHR 0x22] @ '' ::1='' @ [CHR 0x22, CHR 0x22] @ ''>'') \<and>
   (case interpolateAttributes
      [[Some \<lparr>attr_name = ''::0'', attr_value = VStr []\<rparr>,
        Some \<lparr>attr_name = ''title'', attr_value = VStr ''x<y''\<rparr>,
        Some \<lparr>attr_name = ''::1'', attr_value = VStr []\<rparr>]]
      \<lparr>id_counter = 1, signals = [],
       database = fst (createStream []
         [''<Panel '', '' title='' @ [CHR 0x22] @ ''x<y'' @ [CHR 0x22] @ '' '', ''>'']
         [VObj [(''a'', VStr ''1''), (''b'', VStr ''2'')], VObj [(''c'', VStr ''3'')]])\<rparr>
    of Inl e \<Rightarrow> []
     | Inr (nodes, w) \<Rightarrow> map (map (map_option attr_name)) nodes)
   = [[None, Some ''a'', Some ''b'', Some ''c'', Some ''title'', None]]"
  by code_simp

text \<open>
  Claim C8, at the attribute \<^verbatim>\<open>content=""\<close> (as in \<^verbatim>\<open><Text id="123" content="" width="180">\<close>)
  and at a value that holds a percent sign and is no number. \<^verbatim>\<open>isNaN("")\<close> is false, since
  the empty string converts to 0, and \<^verbatim>\<open>parseFloat("")\<close> is \<^verbatim>\<open>NaN\<close>: the empty string is
  not left as a string, its Signal holds \<^verbatim>\<open>NaN\<close>. A string with \<open>%\<close> anywhere becomes a
  pair, whose value is \<^verbatim>\<open>NaN\<close> when the string does not start with a number. The values
  \<^verbatim>\<open>"200"\<close>, \<^verbatim>\<open>"50%"\<close> and \<^verbatim>\<open>"Foo"\<close> are read as a number, a pair and a string.
\<close>

theorem parseElementAttributeValue_not_a_number:
  "parseElementAttributeValue (VStr ''200'') = VNum (Decimal False 200 0) \<and>
   parseElementAttributeValue (VStr ''50%'')
     = VObj [(''value'', VNum (Decimal False 50 0)), (''unit'', VStr ''%'')] \<and>
   parseElementAttributeValue (VStr ''Foo'') = VStr ''Foo'' \<and>
   parseElementAttributeValue (VStr []) = VNum NaN \<and>
   parseElementAttributeValue (VStr ''a%20b'') = VObj [(''value'', VNum NaN), (''unit'', VStr ''%'')] \<and>
   interpolateAttributes [[Some \<lparr>attr_name = ''content'', attr_value = VStr []\<rparr>]]
      \<lparr>id_counter = 1, signals = [], database = []\<rparr>
   = Inr ([[Some \<lparr>attr_name = ''content'', attr_value = VSignal 0\<rparr>]],
          \<lparr>id_counter = 2, signals = [new_Signal ''id1'' (VNum NaN)],
           database = [(''id1'', new_Record ''id1'' (VSignal 0) Absent)]\<rparr>)"
  by code_simp



text \<open>
  Claim C9, at the tree of \<^verbatim>\<open>xml`<V>${A}${B}</V>`\<close> where \<open>A\<close> is the result of
  \<^verbatim>\<open>xml`<T x="${1}" y="${2}"></T>`\<close> and \<open>B\<close> the result of \<^verbatim>\<open>xml`<U></U>`\<close>. The markup of the
  invocation holds the markers \<open>::0\<close> and \<open>::1\<close>, and its database holds \<open>A\<close> and \<open>B\<close>
  under these ids. The database of \<open>A\<close> holds Records under \<open>::0\<close> and \<open>::1\<close> too, for the
  values 1 and 2: the ids of markers are the indices of the values of one invocation.
  Importing \<open>A\<close> at the first marker copies them over the Records of the invocation, so
  at the second marker the lookup finds the number 2 in place of \<open>B\<close>, and the call of
  \<^verbatim>\<open>forEach\<close> on its missing \<^verbatim>\<open>context\<close> throws: the children of \<open>B\<close> are not inserted and no
  marker is removed. At the example of the specification, a single result with two
  children and one entry in its database next to a marker that has no Record, the
  children stand in the place of the marker, the entry is in the database of the
  invocation, the database of the result is empty, and both markers are removed.
\<close>

theorem interpolateNodes_overwritten_marker:
  "createIntermediateHtml
     (snd (createStream []
        [''<T x='' @ [CHR 0x22], [CHR 0x22] @ '' y='' @ [CHR 0x22], [CHR 0x22] @ ''></T>'']
        [VNum (Decimal False 1 0), VNum (Decimal False 2 0)]))
     (fst (createStream []
        [''<T x='' @ [CHR 0x22], [CHR 0x22] @ '' y='' @ [CHR 0x22], [CHR 0x22] @ ''></T>'']
        [VNum (Decimal False 1 0), VNum (Decimal False 2 0)]))
     = Inr (''<T x='' @ [CHR 0x22] @ ''::0'' @ [CHR 0x22] @ '' y='' @ [CHR 0x22] @ ''::1''
              @ [CHR 0x22] @ ''></T>'') \<and>
   map fst first_context = [''::0'', ''::1'', ''id1'', ''id2''] \<and>
   createIntermediateHtml
     (snd (createStream [] [''<V>'', [], ''</V>''] [first_result, second_result]))
     (fst (createStream [] [''<V>'', [], ''</V>''] [first_result, second_result]))
     = Inr ''<V><!--::0--><!--::1--></V>'' \<and>
   commentNodes (tree sibling_nodes) = [XNode 2 1 ''::0'' [], XNode 3 1 ''::1'' []] \<and>
   map_option content (map_of (maps sibling_nodes ! 0) ''::0'') = Some first_result \<and>
   map_option content (map_of (maps sibling_nodes ! 0) ''::1'') = Some second_result \<and>
   (case import_marker 0 (XNode 2 1 ''::0'' []) sibling_nodes of
      Inl e \<Rightarrow> False
    | Inr w \<Rightarrow>
        tree w = XNode 0 0 ''root''
                   [XNode 1 2 ''V'' [XNode 2 1 ''::0'' [], XNode 11 2 ''T'' [], XNode 3 1 ''::1'' []]] \<and>
        map_option content (map_of (maps w ! 0) ''::1'') = Some (VNum (Decimal False 2 0)) \<and>
        import_marker 0 (XNode 3 1 ''::1'' []) w = Inl TypeError) \<and>
   interpolateNodes 0 sibling_nodes = Inl TypeError \<and>
   interpolateNodes 0 example_nodes =
     Inr \<lparr>tree = XNode 0 0 ''root''
                   [XNode 1 2 ''VGroup''
                      [XNode 11 2 ''Text'' [], XNode 12 2 ''Label'' [], XNode 3 2 ''Panel'' []]],
          maps = [[(''::0'', new_Record ''::0'' example_result (FromString ''>'')),
                   (''id1'', new_Record ''id1'' (VSignal 0) Absent)],
                  []],
          warnings = [4]\<rparr>"
  by code_simp


text \<open>
  Claim C2. Let a node carry an attribute whose value is the record id \<^verbatim>\<open>"::" + i\<close>, and
  let the database hold no Record under that id when attribute interpolation starts.
  Then interpolation throws, whatever the bindings do. When the walk of the nodes before
  that node does not throw, the walk ends in the collection loop of that node: the
  nodes after it are as they were, the bindings are those that the earlier nodes left,
  none is undone and none is added; and the error is the lookup error of that id when
  no attribute in front of the marker throws first.
\<close>

theorem interpolateAttributes2_lookup_failure:
  assumes "Some a \<in> set attrs" and "attr_value a = VStr (recordId i)"
    and "map_of db (recordId i) = None"
  shows "snd (interpolateAttributes2 apply (earlier @ attrs # later) db b) \<noteq> None \<and>
         (interpolateAttributes2 apply earlier db b = ((earlier', db1, b1), None) \<longrightarrow>
            (\<exists>attrs' db2 e.
               interpolateAttributes2 apply (earlier @ attrs # later) db b
                 = ((earlier' @ attrs' # later, db2, b1), Some e) \<and>
               length attrs' = length attrs \<and>
               (\<forall>pre post st1.
                  attrs = pre @ Some a # post \<and>
                  collect_attributes 0 pre (attrs, [], db1) = (st1, None) \<longrightarrow>
                  e = LookupError (recordId i))))"
proof (intro conjI impI)
  show "snd (interpolateAttributes2 apply (earlier @ attrs # later) db b) \<noteq> None"
    unfolding interpolateAttributes2_def
    by (rule walk_fatal [of attrs _ a "recordId i"])
       (simp_all add: assms startsWith_recordId recordId_no_dash)
next
  assume run: "interpolateAttributes2 apply earlier db b = ((earlier', db1, b1), None)"
  then have w: "interpolateAttributes2_walk apply 0 earlier (db, b) = ((earlier', (db1, b1)), None)"
    by (simp add: interpolateAttributes2_def)
  have absent: "map_of db1 (recordId i) = None"
    using walk_lookup [OF recordId_no_dash, of "apply" 0 earlier "(db, b)" i] w assms(3) by simp
  obtain attrs' toProcess db2 r
    where c: "collect_attributes 0 attrs (attrs, [], db1) = ((attrs', toProcess, db2), r)"
    by (metis prod_cases3 surj_pair)
  have "snd (collect_attributes 0 attrs (attrs, [], db1)) \<noteq> None"
    by (rule collect_attributes_fatal [OF assms(1,2) startsWith_recordId recordId_no_dash])
       (simp add: absent)
  with c obtain e where r: "r = Some e" by auto
  have here: "interpolateAttributes2_walk apply (0 + length earlier) (attrs # later) (db1, b1)
                = ((attrs' # later, db2, b1), Some e)"
    using walk_throws_in_collection [of attrs "(db1, b1)" attrs' toProcess db2 e] c r by simp
  have whole: "interpolateAttributes2 apply (earlier @ attrs # later) db b
                 = ((earlier' @ attrs' # later, db2, b1), Some e)"
    unfolding interpolateAttributes2_def walk_append [OF w] here by simp
  have len: "length attrs' = length attrs"
    using collect_attributes_length [of 0 attrs "(attrs, [], db1)"] c by simp
  have first: "e = LookupError (recordId i)"
    if "attrs = pre @ Some a # post \<and> collect_attributes 0 pre (attrs, [], db1) = (st1, None)"
    for pre post st1
  proof -
    from that have p: "collect_attributes 0 pre (attrs, [], db1) = (st1, None)"
      by (rule conjunct2)
    from that have s: "attrs = pre @ Some a # post"
      by (rule conjunct1)
    have "snd (collect_attributes 0 (pre @ Some a # post) (attrs, [], db1))
            = Some (LookupError (recordId i))"
      by (rule collect_attributes_first [OF p assms(2) startsWith_recordId recordId_no_dash])
         (simp add: absent)
    with c r s show ?thesis by simp
  qed
  from whole len first
  show "\<exists>attrs' db2 e.
          interpolateAttributes2 apply (earlier @ attrs # later) db b
            = ((earlier' @ attrs' # later, db2, b1), Some e) \<and>
          length attrs' = length attrs \<and>
          (\<forall>pre post st1.
             attrs = pre @ Some a # post \<and>
             collect_attributes 0 pre (attrs, [], db1) = (st1, None) \<longrightarrow>
             e = LookupError (recordId i))"
    by blast
qed

theorem interpolateAttributes2_lookup_failure_witness:
  "\<exists>attrs' db2.
     interpolateAttributes2 log_binding
       ([[Some \<lparr>attr_name = ''color'', attr_value = VStr ''::0''\<rparr>]]
        @ [Some \<lparr>attr_name = ''width'', attr_value = VStr ''::7''\<rparr>,
           Some \<lparr>attr_name = ''height'', attr_value = VStr ''::0''\<rparr>]
        # [[Some \<lparr>attr_name = ''gap'', attr_value = VStr ''::0''\<rparr>]])
       [(''::0'', new_Record ''::0'' (VStr ''red'') (FromString ''<a color=''))] []
     = (([[None]] @ attrs' # [[Some \<lparr>attr_name = ''gap'', attr_value = VStr ''::0''\<rparr>]],
         db2, [(0, ''color'', Primitive_attribute)]),
        Some (LookupError ''::7''))"
proof -
  let ?a = "\<lparr>attr_name = ''width'', attr_value = VStr ''::7''\<rparr>"
  let ?h = "\<lparr>attr_name = ''height'', attr_value = VStr ''::0''\<rparr>"
  let ?attrs = "[Some ?a, Some ?h]"
  let ?db = "[(''::0'', new_Record ''::0'' (VStr ''red'') (FromString ''<a color=''))]"
  let ?earlier = "[[Some \<lparr>attr_name = ''color'', attr_value = VStr ''::0''\<rparr>]]"
  let ?later = "[[Some \<lparr>attr_name = ''gap'', attr_value = VStr ''::0''\<rparr>]]"
  have id7: "recordId 7 = ''::7''" by code_simp
  have h1: "Some ?a \<in> set ?attrs" by simp
  have h2: "attr_value ?a = VStr (recordId 7)" by (simp add: id7)
  have h3: "map_of ?db (recordId 7) = None" by (simp add: id7)
  have before: "interpolateAttributes2 log_binding ?earlier ?db []
                  = (([[None]], ?db, [(0, ''color'', Primitive_attribute)]), None)"
    by code_simp
  from interpolateAttributes2_lookup_failure
         [OF h1 h2 h3, of log_binding ?earlier ?later "[]" "[[None]]" ?db
            "[(0, ''color'', Primitive_attribute)]", THEN conjunct2, THEN mp, OF before]
  obtain attrs' db2 e where run:
      "interpolateAttributes2 log_binding (?earlier @ ?attrs # ?later) ?db []
         = (([[None]] @ attrs' # ?later, db2, [(0, ''color'', Primitive_attribute)]), Some e)"
    and first: "\<forall>pre post st1.
         ?attrs = pre @ Some ?a # post \<and>
         collect_attributes 0 pre (?attrs, [], ?db) = (st1, None) \<longrightarrow>
         e = LookupError (recordId 7)"
    by blast
  have "?attrs = [] @ Some ?a # [Some ?h] \<and>
        collect_attributes 0 [] (?attrs, [], ?db) = ((?attrs, [], ?db), None)"
    by simp
  with first have "e = LookupError (recordId 7)" by blast
  with run id7 show ?thesis by auto
qed


end
